(* ===== verification/Prelude.thy ===== *)
theory Prelude
  imports Complex_Main "HOL-Library.Word" "HOL-Library.Signed_Division"
begin

text \<open>
  Shared vocabulary of the fract-ol development: the types that stand for the C types of
  \<^verbatim>\<open>src/main.c\<close>, the C integer operations with their wrap-around and traps
  written out, and the generic lemmas on them that the component theories use.
  \<^item> \<open>double\<close> and \<open>float\<close> are modelled by \<open>real\<close>: the arithmetic of the model is
    exact (see the header of \<open>Spec2Isabelle\<close> for what this does and does not cover);
  \<^item> a C \<open>int\<close> is an \<open>int\<close> in \<open>[-2^31, 2^31)\<close>; the operations that can leave that
    range are \<open>c_mul\<close> (wraps modulo \<open>2^32\<close>, as the generated code does) and
    \<open>c_div\<close> (\<open>None\<close> where the processor traps: a zero divisor, or
    \<open>INT_MIN / -1\<close>);
  \<^item> a packed RGBA colour (\<open>uint32_t\<close>) is a \<open>32 word\<close>.
\<close>

unbundle bit_operations_syntax

type_synonym double = real
type_synonym float = real
type_synonym u32 = "32 word"

named_theorems c_int_simps "facts that evaluate the C integer operations in range"

definition INT_MIN :: int where
  "INT_MIN = - (2 ^ 31)"

definition INT_MAX :: int where
  "INT_MAX = 2 ^ 31 - 1"

text \<open>An \<open>int\<close> result stored in a 32-bit C \<open>int\<close>: two's complement wrap-around.\<close>

definition wrap32 :: "int \<Rightarrow> int" where
  "wrap32 x = sint (word_of_int x :: 32 word)"

definition in_int32 :: "int \<Rightarrow> bool" where
  "in_int32 x \<longleftrightarrow> INT_MIN \<le> x \<and> x \<le> INT_MAX"

text \<open>C's \<open>a * b\<close> on \<open>int\<close>: the product, wrapped to 32 bits.\<close>

definition c_mul :: "int \<Rightarrow> int \<Rightarrow> int" where
  "c_mul a b = wrap32 (a * b)"

text \<open>C's \<open>a / b\<close> on \<open>int\<close>: truncating division; a zero divisor and
  \<open>INT_MIN / -1\<close> trap (SIGFPE), modelled as \<open>None\<close>.\<close>

definition c_div :: "int \<Rightarrow> int \<Rightarrow> int option" where
  "c_div a b = (if b = 0 \<or> (a = INT_MIN \<and> b = -1) then None else Some (a sdiv b))"

subsection \<open>Lemmas on the C integer operations\<close>

lemma wrap32_eq_signed_take_bit: "wrap32 x = signed_take_bit 31 x"
  by (simp add: wrap32_def signed_of_int)

lemma wrap32_id [c_int_simps]: "in_int32 x \<Longrightarrow> wrap32 x = x"
  by (auto simp: wrap32_eq_signed_take_bit in_int32_def INT_MIN_def INT_MAX_def
      signed_take_bit_int_eq_self)

lemma wrap32_range: "in_int32 (wrap32 x)"
  unfolding in_int32_def INT_MIN_def INT_MAX_def wrap32_def
  using sint_ge [of "word_of_int x :: 32 word"] sint_lt [of "word_of_int x :: 32 word"]
  by simp

lemma wrap32_mod: "wrap32 x = (x + 2 ^ 31) mod 2 ^ 32 - 2 ^ 31"
  by (simp add: wrap32_eq_signed_take_bit signed_take_bit_eq_take_bit_shift take_bit_eq_mod)

lemma c_mul_id [c_int_simps]: "in_int32 (a * b) \<Longrightarrow> c_mul a b = a * b"
  by (simp add: c_mul_def wrap32_id)

lemma sdiv_nonneg_eq_div: "0 \<le> a \<Longrightarrow> 0 < b \<Longrightarrow> a sdiv (b::int) = a div b"
  by (simp add: signed_divide_int_def sgn_if abs_of_nonneg)

lemma c_div_pos [c_int_simps]: "0 < b \<Longrightarrow> c_div a b = Some (a sdiv b)"
  by (simp add: c_div_def)

lemma c_div_nonneg: "0 \<le> a \<Longrightarrow> 0 < b \<Longrightarrow> c_div a b = Some (a div b)"
  by (simp add: c_div_def sdiv_nonneg_eq_div)

lemma in_int32_nonneg_le: "0 \<le> x \<Longrightarrow> x \<le> INT_MAX \<Longrightarrow> in_int32 x"
  by (simp add: in_int32_def INT_MIN_def INT_MAX_def)

end
