(* ===== verification/Complex_Arith.thy ===== *)
theory Complex_Arith
  imports Prelude
begin

text \<open>
  The complex arithmetic primitives of \<^verbatim>\<open>src/main.c\<close> (lines 11--28): the struct
  \<^verbatim>\<open>Complex\<close> as a record of two \<open>double\<close>s, \<^verbatim>\<open>square\<close> and \<^verbatim>\<open>add\<close> as
  functions on it, and the squared modulus \<^verbatim>\<open>z.real * z.real + z.imag * z.imag\<close>
  that every escape test of the iterators computes. The field \<^verbatim>\<open>real\<close> is called
  \<open>real_part\<close> here because \<open>real\<close> is HOL's conversion into the reals.
  The lemmas show that \<^verbatim>\<open>square\<close> is the complex square (the squared modulus
  squares), how it commutes with conjugation, negation and the absolute values taken by
  the Burning Ship iterator, and that it keeps the real axis.
\<close>

record Complex =
  real_part :: double
  imag :: double

definition square :: "Complex \<Rightarrow> Complex" where
  "square z = \<lparr>real_part = real_part z * real_part z - imag z * imag z,
               imag = 2 * real_part z * imag z\<rparr>"

definition add :: "Complex \<Rightarrow> Complex \<Rightarrow> Complex" where
  "add a b = \<lparr>real_part = real_part a + real_part b, imag = imag a + imag b\<rparr>"

definition norm_sq :: "Complex \<Rightarrow> double" where
  "norm_sq z = real_part z * real_part z + imag z * imag z"

text \<open>The escape test \<^verbatim>\<open>z.real * z.real + z.imag * z.imag > 4.0\<close>.\<close>

definition escaped :: "Complex \<Rightarrow> bool" where
  "escaped z \<longleftrightarrow> norm_sq z > 4"

definition origin :: Complex where
  "origin = \<lparr>real_part = 0, imag = 0\<rparr>"

text \<open>Operations the proofs use, not the program: conjugation, negation and the
  component-wise absolute value of the Burning Ship iterator (\<^verbatim>\<open>fabs\<close>).\<close>

definition cconj :: "Complex \<Rightarrow> Complex" where
  "cconj z = \<lparr>real_part = real_part z, imag = - imag z\<rparr>"

definition cneg :: "Complex \<Rightarrow> Complex" where
  "cneg z = \<lparr>real_part = - real_part z, imag = - imag z\<rparr>"

definition cabs :: "Complex \<Rightarrow> Complex" where
  "cabs z = \<lparr>real_part = \<bar>real_part z\<bar>, imag = \<bar>imag z\<bar>\<rparr>"

text \<open>The abstraction of the struct to HOL's complex numbers, used to state what the
  primitives compute.\<close>

definition to_complex :: "Complex \<Rightarrow> complex" where
  "to_complex z = Complex (real_part z) (imag z)"

subsection \<open>Algebra of the primitives\<close>

named_theorems complex_simps "component equations of the complex primitives"

lemma square_components [complex_simps, simp]:
  "real_part (square z) = real_part z * real_part z - imag z * imag z"
  "imag (square z) = 2 * real_part z * imag z"
  by (simp_all add: square_def)

lemma add_components [complex_simps, simp]:
  "real_part (add a b) = real_part a + real_part b"
  "imag (add a b) = imag a + imag b"
  by (simp_all add: add_def)

lemma cconj_components [complex_simps, simp]:
  "real_part (cconj z) = real_part z" "imag (cconj z) = - imag z"
  by (simp_all add: cconj_def)

lemma cneg_components [complex_simps, simp]:
  "real_part (cneg z) = - real_part z" "imag (cneg z) = - imag z"
  by (simp_all add: cneg_def)

lemma cabs_components [complex_simps, simp]:
  "real_part (cabs z) = \<bar>real_part z\<bar>" "imag (cabs z) = \<bar>imag z\<bar>"
  by (simp_all add: cabs_def)

lemma origin_components [complex_simps, simp]:
  "real_part origin = 0" "imag origin = 0"
  by (simp_all add: origin_def)

lemma Complex_eqI:
  fixes a b :: Complex
  shows "real_part a = real_part b \<Longrightarrow> imag a = imag b \<Longrightarrow> a = b"
  by (cases a, cases b) simp

lemma norm_sq_nonneg: "0 \<le> norm_sq z"
  by (simp add: norm_sq_def)

text \<open>\<^verbatim>\<open>square\<close> is the complex square: it squares the modulus. A component-wise
  square would not.\<close>

lemma norm_sq_square: "norm_sq (square z) = (norm_sq z)\<^sup>2"
  by (simp add: norm_sq_def power2_eq_square algebra_simps)

lemma square_cconj: "square (cconj z) = cconj (square z)"
  by (rule Complex_eqI) simp_all

lemma add_cconj: "add (cconj a) (cconj b) = cconj (add a b)"
  by (rule Complex_eqI) simp_all

lemma square_cneg: "square (cneg z) = square z"
  by (rule Complex_eqI) simp_all

lemma norm_sq_cconj: "norm_sq (cconj z) = norm_sq z"
  by (simp add: norm_sq_def)

lemma escaped_cconj: "escaped (cconj z) = escaped z"
  by (simp add: escaped_def norm_sq_cconj)

lemma square_origin: "square origin = origin"
  by (rule Complex_eqI) simp_all

lemma add_origin: "add origin c = c"
  by (rule Complex_eqI) simp_all

lemma cabs_origin: "cabs origin = origin"
  by (rule Complex_eqI) simp_all

text \<open>A component of modulus above 2 puts the point outside the escape radius.\<close>

lemma abs_gt_2_square: "2 < \<bar>x::real\<bar> \<Longrightarrow> 4 < x * x"
proof -
  assume a: "2 < \<bar>x\<bar>"
  have "2 * 2 < \<bar>x\<bar> * \<bar>x\<bar>" using a by (intro mult_strict_mono) simp_all
  then show ?thesis by (simp add: abs_mult_self_eq)
qed

lemma escaped_if_component_gt_2:
  "2 < \<bar>real_part z\<bar> \<or> 2 < \<bar>imag z\<bar> \<Longrightarrow> escaped z"
  unfolding escaped_def norm_sq_def
proof (elim disjE)
  assume "2 < \<bar>real_part z\<bar>"
  then have "4 < real_part z * real_part z" by (rule abs_gt_2_square)
  then show "4 < real_part z * real_part z + imag z * imag z"
    using zero_le_square [of "imag z"] by linarith
next
  assume "2 < \<bar>imag z\<bar>"
  then have "4 < imag z * imag z" by (rule abs_gt_2_square)
  then show "4 < real_part z * real_part z + imag z * imag z"
    using zero_le_square [of "real_part z"] by linarith
qed

text \<open>On the real axis the absolute values of the Burning Ship iterator do not change the
  square.\<close>

lemma to_complex_square: "to_complex (square z) = (to_complex z)\<^sup>2"
  by (simp add: to_complex_def power2_eq_square complex_eq_iff)

lemma to_complex_add: "to_complex (add a b) = to_complex a + to_complex b"
  by (simp add: to_complex_def complex_eq_iff)

lemma to_complex_origin: "to_complex origin = 0"
  by (simp add: to_complex_def complex_eq_iff)

lemma norm_sq_cmod: "norm_sq z = (cmod (to_complex z))\<^sup>2"
  by (simp add: norm_sq_def to_complex_def cmod_def power2_eq_square)

lemma escaped_cmod: "escaped z \<longleftrightarrow> 2 < cmod (to_complex z)"
proof -
  have "cmod (to_complex z) \<le> 2 \<longleftrightarrow> (cmod (to_complex z))\<^sup>2 \<le> 4"
    using abs_le_square_iff [of "cmod (to_complex z)" 2] by simp
  then show ?thesis by (auto simp: escaped_def norm_sq_cmod not_le [symmetric])
qed

lemma square_cabs_real_axis: "imag z = 0 \<Longrightarrow> square (cabs z) = square z"
  by (rule Complex_eqI) simp_all

end
