(* ===== verification/Escape.thy ===== *)
theory Escape
  imports Complex_Arith
begin

text \<open>
  The escape-time evaluators of \<^verbatim>\<open>src/main.c\<close>: \<^verbatim>\<open>julia_iterator\<close> (lines
  64--75), \<^verbatim>\<open>burning_ship_iterator\<close> (77--91) and \<^verbatim>\<open>mandelbrot_iterator\<close>
  (93--107). The three C functions run the same loop: while the counter is below
  \<^verbatim>\<open>maxIter\<close>, replace \<open>z\<close> by one step of the recurrence, return the counter if
  the new \<open>z\<close> has escaped, else count; after the loop return \<^verbatim>\<open>maxIter\<close>. The loop
  is \<open>escape_loop\<close>, parameterised by the step; \<open>orbit_step c\<close> is
  \<^verbatim>\<open>z = add(square(z), c)\<close> and \<open>burning_ship_step c\<close> first takes the
  absolute values of both components (\<^verbatim>\<open>fabs\<close>, lines 82--83). The counter and
  the cap are C \<open>int\<close>s; the counter never passes the cap, so no wrap-around arises.

  The specification \<open>escape_time f z n\<close> is the index of the first of the iterates
  \<open>f z, f (f z), \<dots>\<close> that has escaped, or \<open>n\<close> if none of the first \<open>n\<close> has.
  The lemmas prove that the loop computes it (refinement), characterise it on the orbit,
  and give a simulation rule from which the symmetry and agreement facts of the
  evaluators follow.
\<close>

definition orbit_step :: "Complex \<Rightarrow> Complex \<Rightarrow> Complex" where
  "orbit_step c z = add (square z) c"

definition burning_ship_step :: "Complex \<Rightarrow> Complex \<Rightarrow> Complex" where
  "burning_ship_step c z = add (square (cabs z)) c"

function escape_loop :: "(Complex \<Rightarrow> Complex) \<Rightarrow> Complex \<Rightarrow> int \<Rightarrow> int \<Rightarrow> int" where
  "escape_loop step z maxIter i =
     (if i < maxIter then
        (let z' = step z in
         if escaped z' then i else escape_loop step z' maxIter (i + 1))
      else maxIter)"
  by pat_completeness auto
termination
  by (relation "measure (\<lambda>(step, z, maxIter, i). nat (maxIter - i))") auto

declare escape_loop.simps [simp del]

definition julia_iterator :: "Complex \<Rightarrow> Complex \<Rightarrow> int \<Rightarrow> int" where
  "julia_iterator z c maxIter = escape_loop (orbit_step c) z maxIter 0"

definition burning_ship_iterator :: "Complex \<Rightarrow> int \<Rightarrow> int" where
  "burning_ship_iterator c maxIter = escape_loop (burning_ship_step c) origin maxIter 0"

definition mandelbrot_iterator :: "Complex \<Rightarrow> int \<Rightarrow> int" where
  "mandelbrot_iterator c maxIter = escape_loop (orbit_step c) origin maxIter 0"

subsection \<open>Specification: the first escaping iterate\<close>

fun escape_time :: "(Complex \<Rightarrow> Complex) \<Rightarrow> Complex \<Rightarrow> nat \<Rightarrow> nat" where
  "escape_time f z 0 = 0"
| "escape_time f z (Suc n) = (if escaped (f z) then 0 else Suc (escape_time f (f z) n))"

lemma escape_time_le: "escape_time f z n \<le> n"
  by (induction n arbitrary: z) auto

lemma escape_loop_past_cap: "\<not> i < m \<Longrightarrow> escape_loop f z m i = m"
  by (simp add: escape_loop.simps [of f z m i])

text \<open>The loop computes the specification, from any counter value up to the cap.\<close>

lemma escape_loop_spec:
  "i \<le> m \<Longrightarrow> escape_loop f z m i = i + int (escape_time f z (nat (m - i)))"
proof (induction f z m i rule: escape_loop.induct)
  case (1 f z m i)
  show ?case
  proof (cases "i < m")
    case True
    then have n: "nat (m - i) = Suc (nat (m - (i + 1)))" by simp
    show ?thesis
    proof (cases "escaped (f z)")
      case True
      with \<open>i < m\<close> show ?thesis by (simp add: escape_loop.simps [of f z m i] n)
    next
      case False
      with \<open>i < m\<close> "1.IH" have "escape_loop f (f z) m (i + 1)
          = i + 1 + int (escape_time f (f z) (nat (m - (i + 1))))" by simp
      with False \<open>i < m\<close> show ?thesis by (simp add: escape_loop.simps [of f z m i] n)
    qed
  next
    case False
    with "1.prems" show ?thesis by (simp add: escape_loop_past_cap)
  qed
qed

lemma escape_loop_from_0:
  "escape_loop f z m 0 = (if 0 \<le> m then int (escape_time f z (nat m)) else m)"
  by (simp add: escape_loop_spec escape_loop_past_cap)

lemma escape_loop_range: "0 \<le> m \<Longrightarrow> 0 \<le> escape_loop f z m 0 \<and> escape_loop f z m 0 \<le> m"
  using escape_time_le [of f z "nat m"] by (simp add: escape_loop_from_0)

lemmas iterator_spec = julia_iterator_def burning_ship_iterator_def
  mandelbrot_iterator_def escape_loop_from_0

subsection \<open>The specification on the orbit\<close>

lemma funpow_shift:
  fixes f :: "'a \<Rightarrow> 'a"
  shows "(f ^^ n) (f z) = (f ^^ Suc n) z"
  by (simp add: funpow_swap1)

lemma funpow_one:
  fixes f :: "'a \<Rightarrow> 'a"
  shows "(f ^^ Suc 0) z = f z"
  by simp

text \<open>\<open>escape_time f z n = k < n\<close> exactly when the \<open>k+1\<close>-st iterate has escaped and
  none before it has; \<open>escape_time f z n = n\<close> exactly when none of the first \<open>n\<close>
  iterates has escaped.\<close>

lemma escape_time_eq_n:
  "escape_time f z n = n \<longleftrightarrow> (\<forall>k<n. \<not> escaped ((f ^^ Suc k) z))"
proof (induction n arbitrary: z)
  case 0
  then show ?case by simp
next
  case (Suc n)
  have "(\<forall>k<Suc n. \<not> escaped ((f ^^ Suc k) z)) \<longleftrightarrow>
        \<not> escaped (f z) \<and> (\<forall>k<n. \<not> escaped ((f ^^ Suc k) (f z)))"
    by (auto simp: less_Suc_eq_0_disj funpow_shift funpow_one simp del: funpow.simps(2))
  with Suc.IH [of "f z"] show ?case by simp
qed

lemma escape_time_lt:
  "escape_time f z n = k \<Longrightarrow> k < n \<Longrightarrow>
     escaped ((f ^^ Suc k) z) \<and> (\<forall>j<k. \<not> escaped ((f ^^ Suc j) z))"
proof (induction n arbitrary: z k)
  case 0
  then show ?case by simp
next
  case (Suc n)
  show ?case
  proof (cases "escaped (f z)")
    case True
    with Suc.prems show ?thesis by simp
  next
    case False
    with Suc.prems obtain k' where k: "k = Suc k'" and e: "escape_time f (f z) n = k'"
      and "k' < n" by auto
    with Suc.IH [OF e] have "escaped ((f ^^ Suc k') (f z))"
      and "\<forall>j<k'. \<not> escaped ((f ^^ Suc j) (f z))" by auto
    with False k show ?thesis
      by (auto simp: funpow_shift funpow_one less_Suc_eq_0_disj simp del: funpow.simps(2))
  qed
qed

text \<open>A set of points that the step keeps and from which one step never escapes is
  never left: its points never escape.\<close>

lemma escape_time_invariant:
  assumes "\<And>w. P w \<Longrightarrow> P (f w) \<and> \<not> escaped (f w)" and "P z"
  shows "escape_time f z n = n"
  using assms(2) by (induction n arbitrary: z) (auto dest: assms(1))

text \<open>Two orbits related by a relation that the steps keep and that agrees on escape
  have the same escape time.\<close>

lemma escape_time_sim:
  assumes "\<And>z w. R z w \<Longrightarrow> R (f z) (g w) \<and> escaped (f z) = escaped (g w)"
    and "R z w"
  shows "escape_time f z n = escape_time g w n"
  using assms(2) by (induction n arbitrary: z w) (auto dest: assms(1))

text \<open>Unfolding on a numeral, for evaluating the evaluators at concrete inputs.\<close>

lemma escape_time_numeral:
  "escape_time f z (numeral k) =
     (if escaped (f z) then 0 else Suc (escape_time f (f z) (pred_numeral k)))"
  by (simp add: numeral_eq_Suc)

lemmas escape_eval = iterator_spec escape_time_numeral orbit_step_def
  burning_ship_step_def escaped_def norm_sq_def

lemma escape_loop_first_escape:
  assumes "0 \<le> m"
  shows "(escape_loop f z m 0 = m \<longleftrightarrow> (\<forall>k<nat m. \<not> escaped ((f ^^ Suc k) z))) \<and>
    (escape_loop f z m 0 < m \<longrightarrow>
       escaped ((f ^^ Suc (nat (escape_loop f z m 0))) z) \<and>
       (\<forall>j<nat (escape_loop f z m 0). \<not> escaped ((f ^^ Suc j) z)))"
proof -
  let ?k = "escape_time f z (nat m)"
  have loop: "escape_loop f z m 0 = int ?k" using assms by (simp add: escape_loop_from_0)
  have "escape_loop f z m 0 = m \<longleftrightarrow> ?k = nat m" using loop assms by linarith
  moreover have "?k < nat m \<Longrightarrow> escaped ((f ^^ Suc ?k) z) \<and> (\<forall>j<?k. \<not> escaped ((f ^^ Suc j) z))"
    by (rule escape_time_lt) simp_all
  ultimately show ?thesis using loop by (simp add: escape_time_eq_n)
qed

subsection \<open>Arithmetic of the real segment of the Mandelbrot set\<close>

lemma real_segment_neg_step:
  fixes c x :: real
  assumes "-2 \<le> c" "c \<le> 0" "c \<le> x" "x \<le> -c"
  shows "c \<le> x * x + c \<and> x * x + c \<le> -c \<and> (x * x + c) * (x * x + c) \<le> 4"
proof -
  have "\<bar>x\<bar> \<le> \<bar>c\<bar>" using assms by linarith
  then have sq: "x * x \<le> c * c" by (simp only: abs_le_square_iff power2_eq_square)
  have "c * (c + 2) \<le> 0" using assms by (intro mult_nonpos_nonneg) simp_all
  then have up: "x * x + c \<le> -c" using sq by (simp add: algebra_simps)
  have lo: "c \<le> x * x + c" by simp
  have "\<bar>x * x + c\<bar> \<le> \<bar>2\<bar>" using up lo assms by linarith
  then have "(x * x + c) * (x * x + c) \<le> 2 * 2" by (simp only: abs_le_square_iff power2_eq_square)
  then show ?thesis using up lo by simp
qed

lemma real_segment_pos_step:
  fixes c x :: real
  assumes "0 \<le> c" "c \<le> 1/4" "0 \<le> x" "x \<le> 1/2"
  shows "0 \<le> x * x + c \<and> x * x + c \<le> 1/2 \<and> (x * x + c) * (x * x + c) \<le> 4"
proof -
  have "x * x \<le> 1/2 * (1/2)" using assms by (intro mult_mono) simp_all
  then have up: "x * x + c \<le> 1/2" using assms by simp
  have lo: "0 \<le> x * x + c" using assms by simp
  have "(x * x + c) * (x * x + c) \<le> 1/2 * (1/2)" using up lo by (intro mult_mono) simp_all
  then show ?thesis using up lo by simp
qed

text \<open>The interval of the real axis that the orbit of \<open>c\<close> never leaves.\<close>

definition real_trap :: "Complex \<Rightarrow> Complex \<Rightarrow> bool" where
  "real_trap c w \<longleftrightarrow> imag w = 0 \<and>
     (if real_part c \<le> 0 then real_part c \<le> real_part w \<and> real_part w \<le> - real_part c
      else 0 \<le> real_part w \<and> real_part w \<le> 1/2)"

lemma real_trap_step:
  assumes "imag c = 0" "-2 \<le> real_part c" "real_part c \<le> 1/4" "real_trap c w"
  shows "real_trap c (orbit_step c w) \<and> \<not> escaped (orbit_step c w)"
proof (cases "real_part c \<le> 0")
  case True
  with assms real_segment_neg_step [of "real_part c" "real_part w"] show ?thesis
    by (simp add: real_trap_def orbit_step_def escaped_def norm_sq_def)
next
  case False
  with assms real_segment_pos_step [of "real_part c" "real_part w"] show ?thesis
    by (simp add: real_trap_def orbit_step_def escaped_def norm_sq_def)
qed

subsection \<open>Properties of the evaluators\<close>

lemma orbit_step_complex:
  "to_complex ((orbit_step c ^^ n) z) = ((\<lambda>w. w\<^sup>2 + to_complex c) ^^ n) (to_complex z)"
  by (induction n) (simp_all add: orbit_step_def to_complex_add to_complex_square)

lemma mandelbrot_is_julia_at_origin: "mandelbrot_iterator c m = julia_iterator origin c m"
  by (simp add: mandelbrot_iterator_def julia_iterator_def)

text \<open>C3. Every evaluator returns an iteration count in \<open>[0, maxIter]\<close> when
  \<open>maxIter\<close> is not negative.\<close>

theorem iterators_in_range:
  assumes "0 \<le> m"
  shows "0 \<le> julia_iterator z c m \<and> julia_iterator z c m \<le> m \<and>
    0 \<le> mandelbrot_iterator c m \<and> mandelbrot_iterator c m \<le> m \<and>
    0 \<le> burning_ship_iterator c m \<and> burning_ship_iterator c m \<le> m"
  using assms by (simp add: iterator_spec(1-3) escape_loop_range)

theorem iterators_in_range_witness:
  "0 \<le> julia_iterator origin origin 2 \<and> julia_iterator origin origin 2 \<le> 2 \<and>
   0 \<le> mandelbrot_iterator origin 2 \<and> mandelbrot_iterator origin 2 \<le> 2 \<and>
   0 \<le> burning_ship_iterator origin 2 \<and> burning_ship_iterator origin 2 \<le> 2"
  using iterators_in_range [of 2 origin origin] by simp

text \<open>C26. A non-positive cap makes every evaluator skip its loop and return the cap
  itself (the degenerate case the command line rules out).\<close>

theorem iterators_nonpositive_cap:
  assumes "m \<le> 0"
  shows "julia_iterator z c m = m \<and> mandelbrot_iterator c m = m \<and>
    burning_ship_iterator c m = m"
  using assms by (simp add: iterator_spec(1-3) escape_loop_past_cap)

theorem iterators_nonpositive_cap_witness:
  "(-5::int) \<le> 0 \<and> julia_iterator origin origin (-5) = -5 \<and>
   mandelbrot_iterator origin (-5) = -5 \<and> burning_ship_iterator origin (-5) = -5"
  using iterators_nonpositive_cap [of "-5" origin origin] by simp

text \<open>C2. The Julia evaluator (and so the Mandelbrot evaluator, which is the Julia
  evaluator started at the origin) returns the 0-based index of the first iteration whose
  result has escaped, and the cap exactly when none of the first \<open>maxIter\<close> has.\<close>

theorem julia_iterator_first_escape:
  assumes "0 \<le> m"
  shows "(julia_iterator z c m = m \<longleftrightarrow> (\<forall>k<nat m. \<not> escaped ((orbit_step c ^^ Suc k) z))) \<and>
    (julia_iterator z c m < m \<longrightarrow>
       escaped ((orbit_step c ^^ Suc (nat (julia_iterator z c m))) z) \<and>
       (\<forall>j<nat (julia_iterator z c m). \<not> escaped ((orbit_step c ^^ Suc j) z)))"
  unfolding julia_iterator_def using assms by (rule escape_loop_first_escape)

theorem julia_iterator_first_escape_witness:
  "julia_iterator origin \<lparr>real_part = 0, imag = 3\<rparr> 5 = 0 \<and>
   escaped ((orbit_step \<lparr>real_part = 0, imag = 3\<rparr> ^^ Suc 0) origin)"
proof -
  have r: "julia_iterator origin \<lparr>real_part = 0, imag = 3\<rparr> 5 = 0"
    by (simp add: escape_eval)
  have "0 \<le> (5::int)" by simp
  from julia_iterator_first_escape [OF this, of origin "\<lparr>real_part = 0, imag = 3\<rparr>"] r
  show ?thesis by simp
qed

text \<open>The origin never escapes: the Mandelbrot and the Burning Ship evaluators return
  \<open>maxIter\<close> at the point \<open>(0, 0)\<close>.\<close>

lemma origin_never_escapes:
  "mandelbrot_iterator origin m = m \<and> burning_ship_iterator origin m = m"
proof -
  have m: "escape_time (orbit_step origin) origin n = n" for n
    by (rule escape_time_invariant [where P = "\<lambda>w. w = origin"])
      (simp_all add: orbit_step_def square_origin add_origin escaped_def norm_sq_def)
  have b: "escape_time (burning_ship_step origin) origin n = n" for n
    by (rule escape_time_invariant [where P = "\<lambda>w. w = origin"])
      (simp_all add: burning_ship_step_def cabs_origin square_origin add_origin
        escaped_def norm_sq_def)
  show ?thesis using m b by (simp add: iterator_spec)
qed

text \<open>C15. A point with a component of modulus above 2 escapes at the first
  iteration: both the Mandelbrot and the Burning Ship evaluators return 0 for it.\<close>

theorem outside_escapes_at_once:
  assumes "2 < \<bar>real_part c\<bar> \<or> 2 < \<bar>imag c\<bar>" and "0 < m"
  shows "mandelbrot_iterator c m = 0 \<and> burning_ship_iterator c m = 0"
proof -
  have "escaped c" using assms(1) by (rule escaped_if_component_gt_2)
  moreover have "orbit_step c origin = c" "burning_ship_step c origin = c"
    by (simp_all add: orbit_step_def burning_ship_step_def cabs_origin square_origin add_origin)
  moreover obtain n where "nat m = Suc n" using assms(2) by (metis gr0_implies_Suc zero_less_nat_eq)
  ultimately show ?thesis using assms(2) by (simp add: iterator_spec)
qed

theorem outside_escapes_at_once_witness:
  "mandelbrot_iterator \<lparr>real_part = 3, imag = 0\<rparr> 50 = 0 \<and>
   burning_ship_iterator \<lparr>real_part = 3, imag = 0\<rparr> 50 = 0"
  by (rule outside_escapes_at_once) simp_all

text \<open>C16. On the real axis the Burning Ship and the Mandelbrot evaluators agree: the
  absolute values taken before squaring change nothing while the orbit stays real.\<close>

theorem burning_ship_eq_mandelbrot_on_real_axis:
  assumes "imag c = 0"
  shows "burning_ship_iterator c m = mandelbrot_iterator c m"
proof -
  have "escape_time (burning_ship_step c) origin n = escape_time (orbit_step c) origin n" for n
  proof (rule escape_time_sim [where R = "\<lambda>z w. z = w \<and> imag z = 0"])
    fix z w :: Complex
    assume "z = w \<and> imag z = 0"
    then have zw: "z = w" and w: "imag w = 0" by blast+
    have "burning_ship_step c z = orbit_step c w"
      using zw w by (simp add: burning_ship_step_def orbit_step_def square_cabs_real_axis)
    moreover have "imag (orbit_step c w) = 0"
      using w assms by (simp add: orbit_step_def)
    ultimately show "(burning_ship_step c z = orbit_step c w \<and> imag (burning_ship_step c z) = 0) \<and>
        escaped (burning_ship_step c z) = escaped (orbit_step c w)" by simp
  qed simp
  then show ?thesis by (simp add: iterator_spec)
qed

theorem burning_ship_eq_mandelbrot_on_real_axis_witness:
  "burning_ship_iterator \<lparr>real_part = -1, imag = 0\<rparr> 50 =
   mandelbrot_iterator \<lparr>real_part = -1, imag = 0\<rparr> 50"
  by (rule burning_ship_eq_mandelbrot_on_real_axis) simp

text \<open>The Mandelbrot evaluator is symmetric about the real axis: a point and its
  conjugate get the same count.\<close>

lemma mandelbrot_conj_symmetric:
  "mandelbrot_iterator (cconj c) m = mandelbrot_iterator c m"
proof -
  have "escape_time (orbit_step (cconj c)) origin n = escape_time (orbit_step c) origin n" for n
  proof (rule escape_time_sim [where R = "\<lambda>z w. z = cconj w"])
    fix z w :: Complex
    assume "z = cconj w"
    then show "orbit_step (cconj c) z = cconj (orbit_step c w) \<and>
        escaped (orbit_step (cconj c) z) = escaped (orbit_step c w)"
      by (simp add: orbit_step_def square_cconj add_cconj escaped_cconj)
  qed (rule Complex_eqI; simp)
  then show ?thesis by (simp add: iterator_spec)
qed

text \<open>The Julia evaluator is symmetric about the origin: a start point and its negation
  get the same count (their squares agree).\<close>

lemma julia_point_symmetric:
  "julia_iterator (cneg z) c m = julia_iterator z c m"
proof -
  have "escape_time (orbit_step c) (cneg z) n = escape_time (orbit_step c) z n" for n
    by (rule escape_time_sim [where R = "\<lambda>u v. square u = square v"])
      (simp_all add: orbit_step_def square_cneg)
  then show ?thesis by (simp add: iterator_spec)
qed

text \<open>C23. The segment \<open>[-2, 1/4]\<close> of the real axis lies in the rendered
  Mandelbrot set: for every such \<open>c\<close> the evaluator returns \<open>maxIter\<close>.\<close>

theorem mandelbrot_real_segment_bounded:
  assumes "imag c = 0" "-2 \<le> real_part c" "real_part c \<le> 1/4"
  shows "mandelbrot_iterator c m = m"
proof -
  have start: "real_trap c origin" by (simp add: real_trap_def)
  have step: "\<And>w. real_trap c w \<Longrightarrow> real_trap c (orbit_step c w) \<and> \<not> escaped (orbit_step c w)"
    using assms by (rule real_trap_step)
  have "escape_time (orbit_step c) origin n = n" for n
    using step start by (rule escape_time_invariant)
  then show ?thesis by (simp add: iterator_spec)
qed

theorem mandelbrot_real_segment_bounded_witness:
  "mandelbrot_iterator \<lparr>real_part = -1, imag = 0\<rparr> 50 = 50"
  by (rule mandelbrot_real_segment_bounded) simp_all

text \<open>C11. The Mandelbrot evaluator decides the set it draws: \<open>mandelbrot_iterator c m\<close>
  returns the cap exactly when the first \<open>m\<close> iterates of \<open>w \<mapsto> w\<^sup>2 + c\<close> from
  \<open>0\<close>, computed in HOL's complex numbers, stay in the closed disc of radius 2.\<close>

theorem mandelbrot_iterator_complex:
  assumes "0 \<le> m"
  shows "mandelbrot_iterator c m = m \<longleftrightarrow>
    (\<forall>k<nat m. cmod (((\<lambda>w. w\<^sup>2 + to_complex c) ^^ Suc k) 0) \<le> 2)"
proof -
  have e: "escaped ((orbit_step c ^^ Suc k) origin) \<longleftrightarrow>
      2 < cmod (((\<lambda>w. w\<^sup>2 + to_complex c) ^^ Suc k) 0)" for k
    by (simp only: escaped_cmod orbit_step_complex to_complex_origin)
  have "mandelbrot_iterator c m = m \<longleftrightarrow> (\<forall>k<nat m. \<not> escaped ((orbit_step c ^^ Suc k) origin))"
    unfolding mandelbrot_iterator_def using escape_loop_first_escape [OF assms] by (rule conjunct1)
  then show ?thesis by (simp only: e not_less)
qed

theorem mandelbrot_iterator_complex_witness:
  "0 \<le> (3::int) \<and> mandelbrot_iterator origin 3 = 3 \<and>
   cmod (((\<lambda>w. w\<^sup>2 + to_complex origin) ^^ 3) 0) \<le> 2"
proof -
  have z: "((\<lambda>w. w\<^sup>2 + to_complex origin) ^^ n) 0 = 0" for n
    by (induction n) (simp_all add: to_complex_origin)
  then have "\<forall>k<nat 3. cmod (((\<lambda>w. w\<^sup>2 + to_complex origin) ^^ Suc k) 0) \<le> 2"
    by (simp only: z) simp
  with mandelbrot_iterator_complex [of 3 origin] z show ?thesis by simp
qed

end
