(* ===== verification/Color.thy ===== *)
theory Color
  imports Prelude "HOL-Library.Monad_Syntax"
begin

text \<open>
  The colorizer of \<^verbatim>\<open>src/main.c\<close>: \<^verbatim>\<open>ft_pixel\<close> (lines 59--62) packs four
  \<open>int32_t\<close> channels as \<^verbatim>\<open>r << 24 | g << 16 | b << 8 | a\<close>, and
  \<^verbatim>\<open>get_color\<close> (lines 109--121) maps an iteration count to a colour: the dark grey
  sentinel \<open>0x141414FF\<close> when the count equals the cap, else the ramp
  \<^verbatim>\<open>(iterations * k) / maxIter\<close> for \<open>k = 255, 128, 64\<close>. The shifts and the
  \<^verbatim>\<open>|\<close> act on the two's complement bit patterns, so \<open>ft_pixel\<close> is a
  \<open>32 word\<close> built from the channels' patterns; the products are C \<open>int\<close>
  multiplications (\<open>c_mul\<close>, wrapping) and the quotients C \<open>int\<close> divisions
  (\<open>c_div\<close>, truncating, \<open>None\<close> on a trap). \<open>channel k c\<close> reads byte \<open>k\<close>
  (0 the lowest) of a packed colour, the way MLX42 stores it as R, G, B, A bytes.

  The lemmas: the sentinel and the zero count, the ramp and its channel bounds while
  \<open>maxIter \<le> ramp_limit\<close> (no product overflows), the byte round trip of
  \<open>ft_pixel\<close> in both directions, full opacity of every colour, the trap for a zero
  cap, and the overflow of the ramp past \<open>ramp_limit\<close>.
\<close>

definition ft_pixel :: "int \<Rightarrow> int \<Rightarrow> int \<Rightarrow> int \<Rightarrow> u32" where
  "ft_pixel r g b a =
     push_bit 24 (word_of_int r) OR push_bit 16 (word_of_int g) OR
     push_bit 8 (word_of_int b) OR word_of_int a"

definition get_color :: "int \<Rightarrow> int \<Rightarrow> u32 option" where
  "get_color iterations maxIter =
     (if iterations = maxIter then Some (ft_pixel 20 20 20 255)
      else do {
        r \<leftarrow> c_div (c_mul iterations 255) maxIter;
        g \<leftarrow> c_div (c_mul iterations 128) maxIter;
        b \<leftarrow> c_div (c_mul iterations 64) maxIter;
        Some (ft_pixel r g b 255)
      })"

definition channel :: "nat \<Rightarrow> u32 \<Rightarrow> 8 word" where
  "channel k c = ucast (drop_bit (8 * k) c)"

text \<open>The largest cap for which no product \<open>iterations * 255\<close> with
  \<open>iterations < maxIter\<close> leaves the \<open>int\<close> range: \<open>8421504 * 255 \<le> INT_MAX\<close>.\<close>

definition ramp_limit :: int where
  "ramp_limit = 8421505"

subsection \<open>Packing and unpacking channels\<close>

lemma byte_bit_high: "0 \<le> r \<Longrightarrow> r < 256 \<Longrightarrow> 8 \<le> n \<Longrightarrow> bit (r::int) n = False"
proof -
  assume "0 \<le> r" "r < 256" "8 \<le> n"
  then have "bit r n = bit (take_bit 8 r) n" by (simp add: take_bit_int_eq_self)
  with \<open>8 \<le> n\<close> show ?thesis by (simp add: bit_take_bit_iff)
qed

lemma channel_0_ft_pixel: "channel 0 (ft_pixel r g b a) = word_of_int a"
  by (auto intro!: bit_word_eqI simp: channel_def ft_pixel_def bit_simps)

lemma ft_pixel_channels:
  assumes "0 \<le> r" "r < 256" "0 \<le> g" "g < 256" "0 \<le> b" "b < 256" "0 \<le> a" "a < 256"
  shows "channel 3 (ft_pixel r g b a) = word_of_int r \<and> channel 2 (ft_pixel r g b a) = word_of_int g \<and>
    channel 1 (ft_pixel r g b a) = word_of_int b \<and> channel 0 (ft_pixel r g b a) = word_of_int a"
  using assms by (auto intro!: bit_word_eqI simp: channel_def ft_pixel_def bit_simps byte_bit_high)

lemma uint_byte: "0 \<le> x \<Longrightarrow> x < 256 \<Longrightarrow> uint (word_of_int x :: 8 word) = x"
  by (simp add: uint_word_of_int_eq take_bit_int_eq_self)

lemma ft_pixel_numeral: "ft_pixel 20 20 20 255 = 0x141414FF" "ft_pixel 0 0 0 255 = 0xFF"
  by (simp_all add: ft_pixel_def)

lemma ramp_channel_bound:
  fixes i m k :: int
  assumes "0 \<le> i" "i < m" "0 < k"
  shows "0 \<le> i * k div m \<and> i * k div m < k"
proof -
  have m: "0 < m" using assms by linarith
  have "i * k div m * m + i * k mod m = i * k" by (rule div_mult_mod_eq)
  moreover have "0 \<le> i * k mod m" using m by simp
  ultimately have "i * k div m * m \<le> i * k" by linarith
  also have "i * k < k * m"
    using mult_strict_right_mono [OF assms(2) assms(3)] by (simp add: mult.commute)
  finally have "i * k div m < k" using m by (simp add: mult_less_cancel_right)
  moreover have "0 \<le> i * k div m" using m assms by (simp add: pos_imp_zdiv_nonneg_iff)
  ultimately show ?thesis by simp
qed

lemma ramp_mul_in_range:
  fixes i k :: int
  assumes "0 \<le> i" "i < ramp_limit" "0 \<le> k" "k \<le> 255"
  shows "c_mul i k = i * k"
proof -
  have "i * k \<le> 8421504 * 255" using assms by (intro mult_mono) (simp_all add: ramp_limit_def)
  then show ?thesis using assms
    by (intro c_mul_id in_int32_nonneg_le) (simp_all add: INT_MAX_def)
qed

lemma get_color_ramp:
  assumes "0 \<le> i" "i < m" "m \<le> ramp_limit"
  shows "get_color i m = Some (ft_pixel (i * 255 div m) (i * 128 div m) (i * 64 div m) 255)"
proof -
  have m: "0 < m" and i: "i < ramp_limit" using assms by linarith+
  have "c_mul i 255 = i * 255" "c_mul i 128 = i * 128" "c_mul i 64 = i * 64"
    using assms(1) i by (simp_all add: ramp_mul_in_range)
  then show ?thesis using assms m by (simp add: get_color_def c_div_nonneg)
qed

lemma get_color_Some_ft_pixel:
  "get_color i m = Some c \<Longrightarrow> \<exists>r g b a. c = ft_pixel r g b a \<and> a = 255"
  by (auto simp: get_color_def split: if_splits bind_splits)

text \<open>The evaluation facts for concrete colours.\<close>

lemmas color_eval = get_color_def ft_pixel_def c_div_def c_mul_def wrap32_def INT_MIN_def
  signed_divide_int_def

subsection \<open>Properties of the colorizer\<close>

text \<open>C7. A count equal to the cap gets the fixed dark-grey sentinel \<open>0x141414FF\<close>,
  whatever the cap.\<close>

theorem get_color_sentinel: "get_color m m = Some 0x141414FF"
  by (simp add: get_color_def ft_pixel_numeral)

text \<open>C17. A zero count with a non-zero cap gets black with full opacity: every ramp
  channel is zero.\<close>

theorem get_color_zero: "m \<noteq> 0 \<Longrightarrow> get_color 0 m = Some 0xFF"
  by (simp add: get_color_def c_mul_def wrap32_def c_div_def INT_MIN_def ft_pixel_numeral)

theorem get_color_zero_witness: "(50::int) \<noteq> 0 \<and> get_color 0 50 = Some 0xFF"
  using get_color_zero [of 50] by simp

text \<open>C6. While the cap is at most \<open>ramp_limit\<close>, a count below the cap gets the
  ramp: red, green and blue are \<open>iterations * 255 / maxIter\<close>,
  \<open>iterations * 128 / maxIter\<close> and \<open>iterations * 64 / maxIter\<close>, each below its
  multiplier and so within a byte, and alpha is 255.\<close>

theorem get_color_ramp_channels:
  assumes "0 \<le> i" "i < m" "m \<le> ramp_limit"
  shows "\<exists>c. get_color i m = Some c \<and>
    uint (channel 3 c) = i * 255 div m \<and> uint (channel 2 c) = i * 128 div m \<and>
    uint (channel 1 c) = i * 64 div m \<and> channel 0 c = 255 \<and>
    i * 255 div m < 255 \<and> i * 128 div m < 128 \<and> i * 64 div m < 64"
proof -
  have r: "0 \<le> i * 255 div m \<and> i * 255 div m < 255"
    and g: "0 \<le> i * 128 div m \<and> i * 128 div m < 128"
    and b: "0 \<le> i * 64 div m \<and> i * 64 div m < 64"
    using assms by (simp_all add: ramp_channel_bound)
  have "channel 3 (ft_pixel (i * 255 div m) (i * 128 div m) (i * 64 div m) 255) = word_of_int (i * 255 div m) \<and>
    channel 2 (ft_pixel (i * 255 div m) (i * 128 div m) (i * 64 div m) 255) = word_of_int (i * 128 div m) \<and>
    channel 1 (ft_pixel (i * 255 div m) (i * 128 div m) (i * 64 div m) 255) = word_of_int (i * 64 div m) \<and>
    channel 0 (ft_pixel (i * 255 div m) (i * 128 div m) (i * 64 div m) 255) = word_of_int 255"
    using r g b by (intro ft_pixel_channels) simp_all
  then show ?thesis using get_color_ramp [OF assms] r g b by (simp add: uint_byte)
qed

theorem get_color_ramp_channels_witness:
  "\<exists>c. get_color 25 50 = Some c \<and>
    uint (channel 3 c) = 25 * 255 div 50 \<and> uint (channel 2 c) = 25 * 128 div 50 \<and>
    uint (channel 1 c) = 25 * 64 div 50 \<and> channel 0 c = 255 \<and>
    (25::int) * 255 div 50 < 255 \<and> (25::int) * 128 div 50 < 128 \<and> (25::int) * 64 div 50 < 64"
  by (rule get_color_ramp_channels) (simp_all add: ramp_limit_def)

text \<open>C21. Packing and unpacking are inverse: \<open>ft_pixel\<close> of four byte values is read
  back channel by channel, and any packed colour is \<open>ft_pixel\<close> of its own channels.\<close>

theorem ft_pixel_roundtrip:
  assumes "0 \<le> r" "r < 256" "0 \<le> g" "g < 256" "0 \<le> b" "b < 256" "0 \<le> a" "a < 256"
  shows "channel 3 (ft_pixel r g b a) = word_of_int r \<and> channel 2 (ft_pixel r g b a) = word_of_int g \<and>
    channel 1 (ft_pixel r g b a) = word_of_int b \<and> channel 0 (ft_pixel r g b a) = word_of_int a \<and>
    ft_pixel (uint (channel 3 c)) (uint (channel 2 c)) (uint (channel 1 c)) (uint (channel 0 c)) = c"
proof -
  have dec: "channel 3 (ft_pixel r g b a) = word_of_int r \<and> channel 2 (ft_pixel r g b a) = word_of_int g \<and>
    channel 1 (ft_pixel r g b a) = word_of_int b \<and> channel 0 (ft_pixel r g b a) = word_of_int a"
    using assms by (rule ft_pixel_channels)
  have enc: "ft_pixel (uint (channel 3 c)) (uint (channel 2 c)) (uint (channel 1 c)) (uint (channel 0 c)) = c"
  proof (rule bit_word_eqI)
    fix n assume "n < LENGTH(32)"
    then show "bit (ft_pixel (uint (channel 3 c)) (uint (channel 2 c)) (uint (channel 1 c))
        (uint (channel 0 c))) n = bit c n"
      by (cases "n < 8"; cases "n < 16"; cases "n < 24")
        (auto simp: channel_def ft_pixel_def bit_simps bit_uint_iff)
  qed
  from dec enc show ?thesis by simp
qed

theorem ft_pixel_roundtrip_witness:
  "channel 3 (ft_pixel 1 2 3 4) = 1 \<and> channel 2 (ft_pixel 1 2 3 4) = 2 \<and>
   channel 1 (ft_pixel 1 2 3 4) = 3 \<and> channel 0 (ft_pixel 1 2 3 4) = 4 \<and>
   ft_pixel (uint (channel 3 0x141414FF)) (uint (channel 2 0x141414FF)) (uint (channel 1 0x141414FF))
     (uint (channel 0 0x141414FF)) = 0x141414FF"
  using ft_pixel_roundtrip [of 1 2 3 4 "0x141414FF"] by simp

text \<open>C22. Every colour \<open>get_color\<close> produces is fully opaque, even where the ramp
  overflows: its alpha byte is 255.\<close>

theorem get_color_opaque: "get_color i m = Some c \<Longrightarrow> channel 0 c = 255"
  by (auto dest!: get_color_Some_ft_pixel simp: channel_0_ft_pixel)

theorem get_color_opaque_witness: "get_color 7 50 = Some 0x231108FF \<and> channel 0 0x231108FF = 255"
proof -
  have c: "get_color 7 50 = Some 0x231108FF" by (simp add: color_eval)
  from get_color_opaque [OF c] c show ?thesis by simp
qed

text \<open>C27. A zero cap with a non-zero count reaches the division of the ramp and traps
  (C's division by zero): \<open>get_color\<close> has no result.\<close>

theorem get_color_zero_cap_traps: "i \<noteq> 0 \<Longrightarrow> get_color i 0 = None"
  by (simp add: get_color_def c_div_def)

theorem get_color_zero_cap_traps_witness: "(3::int) \<noteq> 0 \<and> get_color 3 0 = None"
  using get_color_zero_cap_traps [of 3] by simp

text \<open>C28. Past \<open>ramp_limit\<close> the product \<open>iterations * 255\<close> overflows the
  \<open>int\<close>: for every count \<open>i\<close> from \<open>ramp_limit\<close> up to \<open>2\<^sup>24\<close> and every cap
  above it that fits an \<open>int\<close>, the product wraps to \<open>i * 255 - 2\<^sup>32\<close> and the
  truncating division gives the negative red value \<open>-((2\<^sup>32 - i * 255) div m)\<close>, strictly
  below the ramp's \<open>i * 255 div m\<close>; green and blue are still the ramp's.\<close>

theorem get_color_ramp_overflow:
  assumes "ramp_limit \<le> i" "i < m" "m \<le> INT_MAX" "i < 2 ^ 24"
  shows "get_color i m =
      Some (ft_pixel (- ((2 ^ 32 - i * 255) div m)) (i * 128 div m) (i * 64 div m) 255) \<and>
    - ((2 ^ 32 - i * 255) div m) < i * 255 div m"
proof -
  have lo: "2 ^ 31 \<le> i * 255" and hi: "i * 255 < 2 ^ 32" and m: "0 < m"
    using assms by (simp_all add: ramp_limit_def)
  have "(i * 255 + 2 ^ 31) mod 2 ^ 32 = i * 255 + 2 ^ 31 - 2 ^ 32"
    using lo hi by (simp add: mod_pos_geq mod_pos_pos_trivial)
  then have w: "c_mul i 255 = i * 255 - 2 ^ 32" by (simp add: c_mul_def wrap32_mod)
  have gb: "c_mul i 128 = i * 128" "c_mul i 64 = i * 64"
    using assms by (simp_all add: c_mul_id in_int32_def INT_MIN_def INT_MAX_def ramp_limit_def)
  have sd: "(i * 255 - 2 ^ 32) sdiv m = - ((2 ^ 32 - i * 255) div m)"
    using hi m by (simp add: signed_divide_int_def sgn_if abs_if)
  have "i \<noteq> m" "0 \<le> i * 128" "0 \<le> i * 64" using assms by (simp_all add: ramp_limit_def)
  then have "get_color i m =
      Some (ft_pixel (- ((2 ^ 32 - i * 255) div m)) (i * 128 div m) (i * 64 div m) 255)"
    using w gb sd m by (simp add: get_color_def c_div_pos sdiv_nonneg_eq_div)
  moreover have "0 \<le> (2 ^ 32 - i * 255) div m" using hi m by (simp add: pos_imp_zdiv_nonneg_iff)
  moreover have "0 < i * 255 div m" using lo assms(3) m by (simp add: INT_MAX_def pos_imp_zdiv_pos_iff)
  ultimately show ?thesis by linarith
qed

theorem get_color_ramp_overflow_witness:
  "ramp_limit \<le> (8421505::int) \<and> (8421505::int) < 20000000 \<and> (20000000::int) \<le> INT_MAX \<and>
   (8421505::int) < 2 ^ 24 \<and> get_color 8421505 20000000 = Some 0x95351AFF \<and>
   ft_pixel (8421505 * 255 div 20000000) (8421505 * 128 div 20000000) (8421505 * 64 div 20000000) 255
     = 0x6B351AFF"
proof -
  have h: "ramp_limit \<le> (8421505::int)" "(8421505::int) < 20000000" "(20000000::int) \<le> INT_MAX"
    "(8421505::int) < 2 ^ 24" by (simp_all add: ramp_limit_def INT_MAX_def)
  from get_color_ramp_overflow [OF h] h show ?thesis by (simp add: ft_pixel_def)
qed

end
