(* ===== verification/Render.thy ===== *)
theory Render
  imports Escape Color
begin

text \<open>
  The frame renderer of \<^verbatim>\<open>src/main.c\<close>: the process-wide state (lines 30--32 and
  57: \<^verbatim>\<open>g_fractal_type\<close>, \<^verbatim>\<open>g_max_iter\<close>, \<^verbatim>\<open>zoom\<close>, \<^verbatim>\<open>image\<close>) is the
  record \<open>globals\<close>; the MLX42 image is a record of its width, height and pixel grid,
  written by \<open>mlx_put_pixel\<close> (modelled from the spec's \<^verbatim>\<open>setPixel\<close>: a write
  inside the image, nothing outside). \<^verbatim>\<open>ft_fractal\<close> (lines 123--149) is
  \<open>ft_fractal\<close>: it computes \<^verbatim>\<open>range = 4.0 / zoom\<close>, runs the outer loop over
  the columns (\<open>fractal_rows\<close>, over \<open>x\<close>) and the inner loop over the rows
  (\<open>fractal_column\<close>, over \<open>y\<close>), maps each pixel to the plane
  (\<open>plane_point\<close>), dispatches on the numeric tag (\<open>dispatch\<close>, which keeps the
  previous count when the tag is none of 0, 1, 2, as the C variable \<^verbatim>\<open>iter\<close> does),
  colours the count and writes the pixel. The loops carry \<^verbatim>\<open>iter\<close> from pixel to
  pixel and return \<open>None\<close> if a \<open>get_color\<close> traps.

  The specification \<open>paint g img\<close> sets every pixel inside the image to the colour of
  its own count and leaves the rest. The lemmas prove that \<open>ft_fractal\<close> always
  returns and implements \<open>paint\<close>, and from it the frame (only the pixels
  change), the centre pixel, the symmetries of the image and the effect of the zoom.
\<close>

definition WIDTH :: nat where
  "WIDTH = 512"

definition HEIGHT :: nat where
  "HEIGHT = 512"

record mlx_image =
  img_width :: nat
  img_height :: nat
  pixels :: "nat \<times> nat \<Rightarrow> u32"

definition mlx_put_pixel :: "mlx_image \<Rightarrow> nat \<Rightarrow> nat \<Rightarrow> u32 \<Rightarrow> mlx_image" where
  "mlx_put_pixel img x y color =
     (if x < img_width img \<and> y < img_height img
      then img\<lparr>pixels := (pixels img)((x, y) := color)\<rparr> else img)"

record globals =
  g_fractal_type :: int
  g_max_iter :: int
  zoom :: float
  image :: mlx_image

definition julia_c :: Complex where
  "julia_c = \<lparr>real_part = -0.7, imag = 0.27015\<rparr>"

definition plane_point :: "double \<Rightarrow> nat \<Rightarrow> nat \<Rightarrow> Complex" where
  "plane_point rng x y =
     \<lparr>real_part = (real x - real WIDTH / 2) * rng / real WIDTH,
      imag = (real y - real HEIGHT / 2) * rng / real HEIGHT\<rparr>"

definition dispatch :: "globals \<Rightarrow> Complex \<Rightarrow> int \<Rightarrow> int" where
  "dispatch g point iter =
     (if g_fractal_type g = 0 then mandelbrot_iterator point (g_max_iter g)
      else if g_fractal_type g = 1 then julia_iterator point julia_c (g_max_iter g)
      else if g_fractal_type g = 2 then burning_ship_iterator point (g_max_iter g)
      else iter)"

fun fractal_column ::
  "globals \<Rightarrow> double \<Rightarrow> nat \<Rightarrow> nat list \<Rightarrow> int \<times> mlx_image \<Rightarrow> (int \<times> mlx_image) option" where
  "fractal_column g rng x [] st = Some st"
| "fractal_column g rng x (y # ys) (iter, img) =
     (let iter' = dispatch g (plane_point rng x y) iter in
      case get_color iter' (g_max_iter g) of
        None \<Rightarrow> None
      | Some color \<Rightarrow> fractal_column g rng x ys (iter', mlx_put_pixel img x y color))"

fun fractal_rows ::
  "globals \<Rightarrow> double \<Rightarrow> nat list \<Rightarrow> int \<times> mlx_image \<Rightarrow> (int \<times> mlx_image) option" where
  "fractal_rows g rng [] st = Some st"
| "fractal_rows g rng (x # xs) (iter, img) =
     (case fractal_column g rng x [0..<img_height img] (iter, img) of
        None \<Rightarrow> None
      | Some st' \<Rightarrow> fractal_rows g rng xs st')"

definition ft_fractal :: "globals \<Rightarrow> globals option" where
  "ft_fractal g =
     (let rng = 4 / zoom g in
      case fractal_rows g rng [0..<img_width (image g)] (0, image g) of
        None \<Rightarrow> None
      | Some (_, img) \<Rightarrow> Some (g\<lparr>image := img\<rparr>))"

subsection \<open>Specification: every pixel coloured by its own count\<close>

definition pixel_iter :: "globals \<Rightarrow> double \<Rightarrow> nat \<Rightarrow> nat \<Rightarrow> int" where
  "pixel_iter g rng x y = dispatch g (plane_point rng x y) 0"

definition pixel_color :: "globals \<Rightarrow> double \<Rightarrow> nat \<Rightarrow> nat \<Rightarrow> u32" where
  "pixel_color g rng x y =
     (case get_color (pixel_iter g rng x y) (g_max_iter g) of Some c \<Rightarrow> c | None \<Rightarrow> 0)"

definition paint :: "globals \<Rightarrow> mlx_image \<Rightarrow> mlx_image" where
  "paint g img = img\<lparr>pixels := \<lambda>(x, y).
     if x < img_width img \<and> y < img_height img then pixel_color g (4 / zoom g) x y
     else pixels img (x, y)\<rparr>"

definition valid_tag :: "int \<Rightarrow> bool" where
  "valid_tag t \<longleftrightarrow> t = 0 \<or> t = 1 \<or> t = 2"

text \<open>A start state for the concrete instances below: the state \<^verbatim>\<open>main\<close> sets up
  for the tag and a cap of 50, with an image of the given size.\<close>

definition demo_globals :: "int \<Rightarrow> nat \<Rightarrow> globals" where
  "demo_globals tag sz = \<lparr>g_fractal_type = tag, g_max_iter = 50, zoom = 1,
     image = \<lparr>img_width = sz, img_height = sz, pixels = \<lambda>_. 0\<rparr>\<rparr>"

subsection \<open>The loops implement the specification\<close>

text \<open>The count carried from the previous pixel matters only for an unknown tag, and
  there it is the initial 0 throughout.\<close>

definition carried_ok :: "globals \<Rightarrow> int \<Rightarrow> bool" where
  "carried_ok g iter \<longleftrightarrow> valid_tag (g_fractal_type g) \<or> iter = 0"

lemma dispatch_carried:
  "carried_ok g iter \<Longrightarrow>
     dispatch g p iter = dispatch g p 0 \<and> carried_ok g (dispatch g p iter)"
  by (auto simp: carried_ok_def valid_tag_def dispatch_def)

lemma dispatch_loop:
  "valid_tag (g_fractal_type g) \<Longrightarrow> \<exists>f z. dispatch g p iter = escape_loop f z (g_max_iter g) 0"
  by (auto simp: valid_tag_def dispatch_def iterator_spec(1-3))

text \<open>The count of a pixel is the cap, or lies below a positive cap, or is the 0 of an
  unknown tag; so it never makes \<open>get_color\<close> trap.\<close>

lemma get_color_pixel_iter:
  "get_color (pixel_iter g rng x y) (g_max_iter g) = Some (pixel_color g rng x y)"
proof -
  let ?m = "g_max_iter g" and ?p = "plane_point rng x y"
  have cnt: "pixel_iter g rng x y = ?m \<or> (0 \<le> pixel_iter g rng x y \<and> pixel_iter g rng x y < ?m)
      \<or> (\<not> valid_tag (g_fractal_type g) \<and> pixel_iter g rng x y = 0)"
  proof (cases "valid_tag (g_fractal_type g)")
    case True
    then obtain f z where l: "pixel_iter g rng x y = escape_loop f z ?m 0"
      unfolding pixel_iter_def by (blast dest: dispatch_loop)
    show ?thesis
    proof (cases "0 \<le> ?m")
      case True
      then show ?thesis using escape_loop_range [OF True, of f z] l by linarith
    next
      case False
      then show ?thesis using escape_loop_past_cap [of 0 ?m f z] l by simp
    qed
  next
    case False
    then show ?thesis by (simp add: pixel_iter_def dispatch_def valid_tag_def)
  qed
  have "get_color (pixel_iter g rng x y) ?m \<noteq> None"
    using cnt by (auto simp: get_color_def c_div_def c_mul_def wrap32_def INT_MIN_def)
  then show ?thesis by (auto simp: pixel_color_def)
qed

lemma dispatch_pixel_iter:
  "carried_ok g iter \<Longrightarrow> dispatch g (plane_point rng x y) iter = pixel_iter g rng x y"
  using dispatch_carried by (simp add: pixel_iter_def)

lemma put_pixel_dims [simp]:
  "img_width (mlx_put_pixel img x y c) = img_width img"
  "img_height (mlx_put_pixel img x y c) = img_height img"
  by (simp_all add: mlx_put_pixel_def)

text \<open>The inner loop paints the pixels of column \<open>x\<close> it visits, inside the image,
  with their own colours.\<close>

lemma fractal_column_paints:
  assumes "carried_ok g iter"
  shows "\<exists>iter'. fractal_column g rng x ys (iter, img) =
      Some (iter', img\<lparr>pixels := \<lambda>(a, b).
        if a = x \<and> b \<in> set ys \<and> x < img_width img \<and> b < img_height img
        then pixel_color g rng x b else pixels img (a, b)\<rparr>) \<and> carried_ok g iter'"
  using assms
proof (induction ys arbitrary: iter img)
  case Nil
  then show ?case by simp
next
  case (Cons y ys)
  let ?img1 = "mlx_put_pixel img x y (pixel_color g rng x y)"
  have it: "dispatch g (plane_point rng x y) iter = pixel_iter g rng x y"
    using Cons.prems by (rule dispatch_pixel_iter)
  have "carried_ok g (dispatch g (plane_point rng x y) iter)"
    using dispatch_carried [OF Cons.prems] by blast
  then have ok: "carried_ok g (pixel_iter g rng x y)" by (simp only: it)
  from Cons.IH [OF ok, of ?img1] obtain iter' where
    rec: "fractal_column g rng x ys (pixel_iter g rng x y, ?img1) =
      Some (iter', ?img1\<lparr>pixels := \<lambda>(a, b).
        if a = x \<and> b \<in> set ys \<and> x < img_width img \<and> b < img_height img
        then pixel_color g rng x b else pixels ?img1 (a, b)\<rparr>)" and ok': "carried_ok g iter'"
    by auto
  have "?img1\<lparr>pixels := \<lambda>(a, b).
        if a = x \<and> b \<in> set ys \<and> x < img_width img \<and> b < img_height img
        then pixel_color g rng x b else pixels ?img1 (a, b)\<rparr> =
      img\<lparr>pixels := \<lambda>(a, b).
        if a = x \<and> b \<in> set (y # ys) \<and> x < img_width img \<and> b < img_height img
        then pixel_color g rng x b else pixels img (a, b)\<rparr>"
    by (auto simp: mlx_put_pixel_def fun_eq_iff)
  with rec ok' it show ?case by (simp add: get_color_pixel_iter)
qed

text \<open>The outer loop paints every pixel of the columns it visits.\<close>

lemma fractal_rows_paints:
  assumes "carried_ok g iter"
  shows "\<exists>iter'. fractal_rows g rng xs (iter, img) =
      Some (iter', img\<lparr>pixels := \<lambda>(a, b).
        if a \<in> set xs \<and> a < img_width img \<and> b < img_height img
        then pixel_color g rng a b else pixels img (a, b)\<rparr>) \<and> carried_ok g iter'"
  using assms
proof (induction xs arbitrary: iter img)
  case Nil
  then show ?case by simp
next
  case (Cons x xs)
  from fractal_column_paints [OF Cons.prems, of rng x "[0..<img_height img]" img]
  obtain iter1 where col: "fractal_column g rng x [0..<img_height img] (iter, img) =
      Some (iter1, img\<lparr>pixels := \<lambda>(a, b).
        if a = x \<and> b \<in> set [0..<img_height img] \<and> x < img_width img \<and> b < img_height img
        then pixel_color g rng x b else pixels img (a, b)\<rparr>)" and ok1: "carried_ok g iter1"
    by blast
  let ?img1 = "img\<lparr>pixels := \<lambda>(a, b).
        if a = x \<and> b \<in> set [0..<img_height img] \<and> x < img_width img \<and> b < img_height img
        then pixel_color g rng x b else pixels img (a, b)\<rparr>"
  from Cons.IH [OF ok1, of ?img1] obtain iter' where
    rec: "fractal_rows g rng xs (iter1, ?img1) = Some (iter', ?img1\<lparr>pixels := \<lambda>(a, b).
        if a \<in> set xs \<and> a < img_width ?img1 \<and> b < img_height ?img1
        then pixel_color g rng a b else pixels ?img1 (a, b)\<rparr>)" and ok': "carried_ok g iter'"
    by blast
  have "?img1\<lparr>pixels := \<lambda>(a, b).
        if a \<in> set xs \<and> a < img_width ?img1 \<and> b < img_height ?img1
        then pixel_color g rng a b else pixels ?img1 (a, b)\<rparr> =
      img\<lparr>pixels := \<lambda>(a, b).
        if a \<in> set (x # xs) \<and> a < img_width img \<and> b < img_height img
        then pixel_color g rng a b else pixels img (a, b)\<rparr>"
    by (auto simp: fun_eq_iff)
  with col rec ok' show ?case by simp
qed

text \<open>\<open>ft_fractal\<close> always returns, and returns the painted image.\<close>

lemma ft_fractal_paint: "ft_fractal g = Some (g\<lparr>image := paint g (image g)\<rparr>)"
proof -
  have "carried_ok g 0" by (simp add: carried_ok_def)
  from fractal_rows_paints [OF this, of "4 / zoom g" "[0..<img_width (image g)]" "image g"]
  show ?thesis by (auto simp: ft_fractal_def paint_def)
qed

lemma paint_pixels [simp]:
  "pixels (paint g img) (x, y) =
     (if x < img_width img \<and> y < img_height img then pixel_color g (4 / zoom g) x y
      else pixels img (x, y))"
  "img_width (paint g img) = img_width img" "img_height (paint g img) = img_height img"
  by (simp_all add: paint_def)

text \<open>A render overwrites the whole image: what was drawn before does not matter.\<close>

lemma paint_overwrites: "paint g (paint g' img) = paint g img"
  by (simp add: paint_def fun_eq_iff)

lemma paint_idem: "paint g (paint g img) = paint g img"
  by (rule paint_overwrites)

subsection \<open>The plane coordinates\<close>

lemma plane_point_centre: "plane_point rng 256 256 = origin"
  by (simp add: plane_point_def origin_def WIDTH_def HEIGHT_def)

lemma pixel_color_centre:
  assumes "g_fractal_type g = 0 \<or> g_fractal_type g = 2"
  shows "pixel_color g rng 256 256 = 0x141414FF"
proof -
  have "pixel_iter g rng 256 256 = g_max_iter g"
    using assms origin_never_escapes by (auto simp: pixel_iter_def dispatch_def plane_point_centre)
  then show ?thesis by (simp add: pixel_color_def get_color_def ft_pixel_numeral)
qed

lemma real_complement: "a + b = (512::nat) \<Longrightarrow> real b = 512 - real a"
proof -
  assume "a + b = 512"
  then have "real (a + b) = 512" by simp
  then show ?thesis by simp
qed

lemma plane_point_mirror:
  "y1 + y2 = 512 \<Longrightarrow> plane_point rng x y2 = cconj (plane_point rng x y1)"
  by (rule Complex_eqI) (simp_all add: plane_point_def HEIGHT_def real_complement field_simps)

lemma plane_point_reflect:
  "x1 + x2 = 512 \<Longrightarrow> y1 + y2 = 512 \<Longrightarrow> plane_point rng x2 y2 = cneg (plane_point rng x1 y1)"
  by (rule Complex_eqI) (simp_all add: plane_point_def WIDTH_def HEIGHT_def real_complement field_simps)

lemma plane_point_negate_range:
  "x \<le> 512 \<Longrightarrow> y \<le> 512 \<Longrightarrow> plane_point (- rng) x y = plane_point rng (512 - x) (512 - y)"
  by (rule Complex_eqI) (simp_all add: plane_point_def WIDTH_def HEIGHT_def field_simps)

lemma dispatch_ignores_zoom_image:
  "dispatch (g\<lparr>zoom := z\<rparr>) = dispatch g" "dispatch (g\<lparr>image := img\<rparr>) = dispatch g"
  by (simp_all add: dispatch_def fun_eq_iff)

lemma pixel_color_ignores_zoom: "pixel_color (g\<lparr>zoom := z\<rparr>) = pixel_color g"
  by (simp add: pixel_color_def pixel_iter_def dispatch_ignores_zoom_image fun_eq_iff)

lemma paint_ignores_image: "paint (g\<lparr>image := i\<rparr>) = paint g"
  by (simp add: paint_def pixel_color_def pixel_iter_def dispatch_ignores_zoom_image fun_eq_iff)

lemma pixel_color_same_count:
  "pixel_iter g rng x y = pixel_iter g rng x' y' \<Longrightarrow> pixel_color g rng x y = pixel_color g rng x' y'"
  by (simp add: pixel_color_def)

subsection \<open>Properties of the renderer\<close>

text \<open>C1. \<open>ft_fractal\<close> always completes (no \<open>get_color\<close> it calls traps) and
  changes only the image: every pixel inside the image gets the colour of the count its
  plane point has under the selected evaluator, every pixel outside keeps its value, and
  the image keeps its size.\<close>

theorem ft_fractal_renders_every_pixel:
  "\<exists>g'. ft_fractal g = Some g' \<and> g' = g\<lparr>image := image g'\<rparr> \<and>
     img_width (image g') = img_width (image g) \<and> img_height (image g') = img_height (image g) \<and>
     (\<forall>x y. x < img_width (image g) \<and> y < img_height (image g) \<longrightarrow>
        get_color (dispatch g (plane_point (4 / zoom g) x y) 0) (g_max_iter g) =
          Some (pixels (image g') (x, y))) \<and>
     (\<forall>x y. \<not> (x < img_width (image g) \<and> y < img_height (image g)) \<longrightarrow>
        pixels (image g') (x, y) = pixels (image g) (x, y))"
  using get_color_pixel_iter [of g "4 / zoom g"]
  by (simp add: ft_fractal_paint pixel_iter_def)

theorem ft_fractal_renders_every_pixel_witness:
  "\<exists>g'. ft_fractal (demo_globals 0 1) = Some g' \<and> pixels (image g') (0, 0) = 0xFF"
proof -
  obtain g' where ok: "ft_fractal (demo_globals 0 1) = Some g'" and
    px: "\<forall>x y. x < 1 \<and> y < 1 \<longrightarrow>
      get_color (dispatch (demo_globals 0 1) (plane_point 4 x y) 0) 50 = Some (pixels (image g') (x, y))"
    using ft_fractal_renders_every_pixel [of "demo_globals 0 1"] by (auto simp: demo_globals_def)
  have "get_color (dispatch (demo_globals 0 1) (plane_point 4 0 0) 0) 50 = Some 0xFF"
    by (simp add: demo_globals_def dispatch_def plane_point_def WIDTH_def HEIGHT_def escape_eval
        color_eval)
  with px ok show ?thesis by auto
qed

text \<open>C8. With the Mandelbrot or the Burning Ship tag, the centre pixel \<open>(256, 256)\<close>
  of an image wider and higher than 256 maps to the origin and is rendered in the
  sentinel grey \<open>0x141414FF\<close>, whatever the zoom and the cap.\<close>

theorem centre_pixel_sentinel:
  assumes "g_fractal_type g = 0 \<or> g_fractal_type g = 2"
    and "256 < img_width (image g)" "256 < img_height (image g)"
  shows "\<exists>g'. ft_fractal g = Some g' \<and> pixels (image g') (256, 256) = 0x141414FF"
  using assms pixel_color_centre [OF assms(1), of "4 / zoom g"] by (simp add: ft_fractal_paint)

theorem centre_pixel_sentinel_witness:
  "\<exists>g'. ft_fractal (demo_globals 2 512) = Some g' \<and> pixels (image g') (256, 256) = 0x141414FF"
  by (rule centre_pixel_sentinel) (simp_all add: demo_globals_def)

text \<open>C24. The rendered Mandelbrot image is symmetric about its middle row: pixels
  \<open>(x, y1)\<close> and \<open>(x, y2)\<close> with \<open>y1 + y2 = 512\<close> get the same colour.\<close>

theorem mandelbrot_image_mirror:
  assumes "g_fractal_type g = 0" "ft_fractal g = Some g'"
    and "x < img_width (image g)" "y1 < img_height (image g)" "y2 < img_height (image g)"
    and "y1 + y2 = 512"
  shows "pixels (image g') (x, y1) = pixels (image g') (x, y2)"
proof -
  have "pixel_iter g (4 / zoom g) x y2 = pixel_iter g (4 / zoom g) x y1"
    using assms(1) plane_point_mirror [OF assms(6)]
    by (simp add: pixel_iter_def dispatch_def mandelbrot_conj_symmetric)
  then have "pixel_color g (4 / zoom g) x y1 = pixel_color g (4 / zoom g) x y2"
    by (rule pixel_color_same_count [symmetric])
  with assms(2-5) show ?thesis by (auto simp: ft_fractal_paint)
qed

theorem mandelbrot_image_mirror_witness:
  "\<exists>g'. ft_fractal (demo_globals 0 512) = Some g' \<and>
     pixels (image g') (100, 200) = pixels (image g') (100, 312)"
proof -
  obtain g' where ok: "ft_fractal (demo_globals 0 512) = Some g'"
    using ft_fractal_paint by blast
  have "pixels (image g') (100, 200) = pixels (image g') (100, 312)"
    by (rule mandelbrot_image_mirror [OF _ ok]) (simp_all add: demo_globals_def)
  with ok show ?thesis by blast
qed

text \<open>C25. The rendered Julia image is symmetric about its centre: pixels
  \<open>(x1, y1)\<close> and \<open>(x2, y2)\<close> with \<open>x1 + x2 = 512\<close> and \<open>y1 + y2 = 512\<close>
  get the same colour.\<close>

theorem julia_image_point_symmetric:
  assumes "g_fractal_type g = 1" "ft_fractal g = Some g'"
    and "x1 < img_width (image g)" "x2 < img_width (image g)"
    and "y1 < img_height (image g)" "y2 < img_height (image g)"
    and "x1 + x2 = 512" "y1 + y2 = 512"
  shows "pixels (image g') (x1, y1) = pixels (image g') (x2, y2)"
proof -
  have "pixel_iter g (4 / zoom g) x2 y2 = pixel_iter g (4 / zoom g) x1 y1"
    using assms(1) plane_point_reflect [OF assms(7,8)]
    by (simp add: pixel_iter_def dispatch_def julia_point_symmetric)
  then have "pixel_color g (4 / zoom g) x1 y1 = pixel_color g (4 / zoom g) x2 y2"
    by (rule pixel_color_same_count [symmetric])
  with assms(2-6) show ?thesis by (auto simp: ft_fractal_paint)
qed

theorem julia_image_point_symmetric_witness:
  "\<exists>g'. ft_fractal (demo_globals 1 512) = Some g' \<and>
     pixels (image g') (100, 200) = pixels (image g') (412, 312)"
proof -
  obtain g' where ok: "ft_fractal (demo_globals 1 512) = Some g'"
    using ft_fractal_paint by blast
  have "pixels (image g') (100, 200) = pixels (image g') (412, 312)"
    by (rule julia_image_point_symmetric [OF _ ok]) (simp_all add: demo_globals_def)
  with ok show ?thesis by blast
qed

lemma ft_fractal_pixel:
  "x < img_width (image g) \<Longrightarrow> y < img_height (image g) \<Longrightarrow>
     \<exists>g'. ft_fractal g = Some g' \<and>
       Some (pixels (image g') (x, y)) = get_color (dispatch g (plane_point (4 / zoom g) x y) 0) (g_max_iter g)"
  using get_color_pixel_iter [of g "4 / zoom g" x y] by (simp add: ft_fractal_paint pixel_iter_def)

lemma plane_point_rescale:
  assumes "r1 \<noteq> 0"
  shows "to_complex (plane_point r2 x y) = of_real (r2 / r1) * to_complex (plane_point r1 x y)"
  using assms by (simp add: plane_point_def to_complex_def complex_eq_iff WIDTH_def HEIGHT_def)

lemma plane_point_off_centre:
  "r \<noteq> 0 \<Longrightarrow> (x, y) \<noteq> (256, 256) \<Longrightarrow> to_complex (plane_point r x y) \<noteq> 0"
  by (auto simp: plane_point_def to_complex_def complex_eq_iff WIDTH_def HEIGHT_def)

text \<open>C18. Zoom monotonicity, through the renderer: rendering at zooms \<open>0 < z1 < z2\<close>
  colours each pixel by the point \<open>plane_point (4 / zoom)\<close>, and the point a pixel shows
  at \<open>z2\<close> is the one it shows at \<open>z1\<close> scaled by \<open>z1 / z2 < 1\<close> towards the centre:
  strictly closer to the origin for every pixel but the centre.\<close>

theorem zoom_in_narrows_view:
  assumes "0 < z1" "z1 < z2" "x < img_width (image g)" "y < img_height (image g)"
  shows "\<exists>g1 g2. ft_fractal (g\<lparr>zoom := z1\<rparr>) = Some g1 \<and> ft_fractal (g\<lparr>zoom := z2\<rparr>) = Some g2 \<and>
    Some (pixels (image g1) (x, y)) = get_color (dispatch g (plane_point (4 / z1) x y) 0) (g_max_iter g) \<and>
    Some (pixels (image g2) (x, y)) = get_color (dispatch g (plane_point (4 / z2) x y) 0) (g_max_iter g) \<and>
    to_complex (plane_point (4 / z2) x y) = of_real (z1 / z2) * to_complex (plane_point (4 / z1) x y) \<and>
    ((x, y) \<noteq> (256, 256) \<longrightarrow>
      cmod (to_complex (plane_point (4 / z2) x y)) < cmod (to_complex (plane_point (4 / z1) x y)))"
proof -
  obtain g1 g2 where
    "ft_fractal (g\<lparr>zoom := z1\<rparr>) = Some g1 \<and>
      Some (pixels (image g1) (x, y)) = get_color (dispatch g (plane_point (4 / z1) x y) 0) (g_max_iter g)"
    "ft_fractal (g\<lparr>zoom := z2\<rparr>) = Some g2 \<and>
      Some (pixels (image g2) (x, y)) = get_color (dispatch g (plane_point (4 / z2) x y) 0) (g_max_iter g)"
    using ft_fractal_pixel [of x "g\<lparr>zoom := z1\<rparr>" y] ft_fractal_pixel [of x "g\<lparr>zoom := z2\<rparr>" y] assms(3,4)
    by (auto simp: dispatch_ignores_zoom_image)
  moreover have sc: "to_complex (plane_point (4 / z2) x y) = of_real (z1 / z2) * to_complex (plane_point (4 / z1) x y)"
    using plane_point_rescale [of "4 / z1" "4 / z2" x y] assms(1,2) by simp
  moreover have "cmod (to_complex (plane_point (4 / z2) x y)) < cmod (to_complex (plane_point (4 / z1) x y))"
    if "(x, y) \<noteq> (256, 256)"
  proof -
    have "0 < cmod (to_complex (plane_point (4 / z1) x y))"
      using plane_point_off_centre [OF _ that, of "4 / z1"] assms(1) by simp
    moreover have r: "0 < z1 / z2" "z1 / z2 < 1" using assms(1,2) by simp_all
    ultimately have "z1 / z2 * cmod (to_complex (plane_point (4 / z1) x y)) <
        cmod (to_complex (plane_point (4 / z1) x y))"
      using mult_strict_right_mono [of "z1 / z2" 1] by simp
    moreover have "cmod (of_real (z1 / z2) * to_complex (plane_point (4 / z1) x y)) =
        z1 / z2 * cmod (to_complex (plane_point (4 / z1) x y))"
      using r(1) by (simp only: norm_mult norm_of_real abs_of_pos)
    ultimately show ?thesis by (simp only: sc)
  qed
  ultimately show ?thesis by blast
qed

theorem zoom_in_narrows_view_witness:
  "\<exists>g1 g2. ft_fractal ((demo_globals 0 512)\<lparr>zoom := 1\<rparr>) = Some g1 \<and>
     ft_fractal ((demo_globals 0 512)\<lparr>zoom := 2\<rparr>) = Some g2 \<and>
     cmod (to_complex (plane_point (4 / 2) 0 0)) < cmod (to_complex (plane_point (4 / 1) 0 0))"
proof -
  have h: "0 < (1::real)" "(1::real) < 2" "0 < img_width (image (demo_globals 0 512))"
    "0 < img_height (image (demo_globals 0 512))" by (simp_all add: demo_globals_def)
  from zoom_in_narrows_view [OF h] show ?thesis by auto
qed

text \<open>C30. A negative zoom (reached by holding the zoom-out key: the code has no lower
  bound) turns the view by 180 degrees: the pixel \<open>(x, y)\<close> rendered at zoom
  \<open>-z\<close> has the colour of the pixel \<open>(512 - x, 512 - y)\<close> at zoom \<open>z\<close>.\<close>

theorem negative_zoom_rotates_image:
  assumes "0 < z" "x \<le> 512" "y \<le> 512"
    and "x < img_width (image g)" "y < img_height (image g)"
    and "512 - x < img_width (image g)" "512 - y < img_height (image g)"
  shows "\<exists>a b. ft_fractal (g\<lparr>zoom := z\<rparr>) = Some a \<and> ft_fractal (g\<lparr>zoom := - z\<rparr>) = Some b \<and>
    pixels (image b) (x, y) = pixels (image a) (512 - x, 512 - y)"
proof -
  have "4 / - z = - (4 / z)" by simp
  then have "pixel_color g (4 / - z) x y = pixel_color g (4 / z) (512 - x) (512 - y)"
    using assms(2,3) by (simp add: pixel_color_def pixel_iter_def plane_point_negate_range)
  with assms(4-7) show ?thesis by (simp add: ft_fractal_paint pixel_color_ignores_zoom)
qed

theorem negative_zoom_rotates_image_witness:
  "\<exists>a b. ft_fractal ((demo_globals 0 512)\<lparr>zoom := 1/10\<rparr>) = Some a \<and>
    ft_fractal ((demo_globals 0 512)\<lparr>zoom := - (1/10)\<rparr>) = Some b \<and>
    pixels (image b) (100, 200) = pixels (image a) (412, 312)"
  using negative_zoom_rotates_image [of "1/10" 100 200 "demo_globals 0 512"]
  by (simp add: demo_globals_def)

end
