(* ===== verification/Controller.thy ===== *)
theory Controller
  imports Render
begin

text \<open>
  The input/zoom controller of \<^verbatim>\<open>src/main.c\<close>: the loop hook \<^verbatim>\<open>ft_hook\<close>
  (lines 151--167) and the MLX42 event loop that calls it once per frame. The state is
  the process-wide \<open>globals\<close> of the renderer together with the window's close flag
  (\<open>should_close\<close>, set by \<^verbatim>\<open>mlx_close_window\<close>). One frame's keyboard is a
  record of the three \<^verbatim>\<open>mlx_is_key_down\<close> answers. \<open>ft_hook\<close> follows the code's
  three independent \<^verbatim>\<open>if\<close>s in order: Escape requests the close, Up adds 0.1 to the
  zoom and re-renders, Down subtracts 0.1 and re-renders; a frame with both zoom keys
  renders twice. \<open>mlx_loop\<close> (MLX42, modelled from the spec's \<^verbatim>\<open>runEventLoop\<close>)
  runs the hook on each frame of a finite key sequence while the window is open.

  \<open>reachable\<close> is the set of states the program can be in once \<^verbatim>\<open>main\<close> has
  rendered the first frame: the start state, then any hook step from an open window. The
  invariant \<open>ctrl_inv\<close> (tag and cap as \<^verbatim>\<open>main\<close> set them, a \<open>512 \<times> 512\<close> image
  that is a full render of the current zoom, zoom on the grid \<open>1 + k/10\<close>) holds in
  every reachable state, by rule induction.
\<close>

record keys =
  key_escape :: bool
  key_up :: bool
  key_down :: bool

record fractol_state =
  glob :: globals
  should_close :: bool

definition zoom_step :: float where
  "zoom_step = 1/10"

text \<open>\<^verbatim>\<open>zoom += 0.1; ft_fractal(NULL);\<close> and \<^verbatim>\<open>zoom -= 0.1; ft_fractal(NULL);\<close>\<close>

definition rezoom :: "float \<Rightarrow> fractol_state \<Rightarrow> fractol_state option" where
  "rezoom d s = map_option (\<lambda>g. s\<lparr>glob := g\<rparr>) (ft_fractal ((glob s)\<lparr>zoom := zoom (glob s) + d\<rparr>))"

definition ft_hook :: "keys \<Rightarrow> fractol_state \<Rightarrow> fractol_state option" where
  "ft_hook k s =
     (let s1 = (if key_escape k then s\<lparr>should_close := True\<rparr> else s) in
      do {
        s2 \<leftarrow> (if key_up k then rezoom zoom_step s1 else Some s1);
        (if key_down k then rezoom (- zoom_step) s2 else Some s2)
      })"

fun mlx_loop :: "keys list \<Rightarrow> fractol_state \<Rightarrow> fractol_state option" where
  "mlx_loop [] s = Some s"
| "mlx_loop (k # ks) s =
     (if should_close s then Some s
      else case ft_hook k s of None \<Rightarrow> None | Some s' \<Rightarrow> mlx_loop ks s')"

text \<open>The state \<^verbatim>\<open>main\<close> hands to the first render: tag and cap from the command
  line, \<^verbatim>\<open>zoom = 1.0\<close>, the new \<open>WIDTH \<times> HEIGHT\<close> image.\<close>

definition start_globals :: "int \<Rightarrow> int \<Rightarrow> mlx_image \<Rightarrow> globals" where
  "start_globals t m img = \<lparr>g_fractal_type = t, g_max_iter = m, zoom = 1, image = img\<rparr>"

inductive reachable :: "fractol_state \<Rightarrow> bool" where
  start: "valid_tag t \<Longrightarrow> 0 < m \<Longrightarrow> img_width img = WIDTH \<Longrightarrow> img_height img = HEIGHT \<Longrightarrow>
    ft_fractal (start_globals t m img) = Some g \<Longrightarrow> reachable \<lparr>glob = g, should_close = False\<rparr>"
| tick: "reachable s \<Longrightarrow> \<not> should_close s \<Longrightarrow> ft_hook k s = Some s' \<Longrightarrow> reachable s'"

inductive_cases reachable_tickE: "reachable s'"

definition rendered :: "globals \<Rightarrow> bool" where
  "rendered g \<longleftrightarrow> paint g (image g) = image g"

definition ctrl_inv :: "int \<Rightarrow> int \<Rightarrow> fractol_state \<Rightarrow> bool" where
  "ctrl_inv t m s \<longleftrightarrow>
     g_fractal_type (glob s) = t \<and> g_max_iter (glob s) = m \<and> valid_tag t \<and> 0 < m \<and>
     img_width (image (glob s)) = WIDTH \<and> img_height (image (glob s)) = HEIGHT \<and>
     rendered (glob s) \<and> (\<exists>k::int. zoom (glob s) = 1 + of_int k * zoom_step)"

text \<open>The frames a run of \<^verbatim>\<open>mlx_loop\<close> from an open window processes (up to and
  including the first with Escape held), and the zoom change one frame makes.\<close>

fun frames_run :: "keys list \<Rightarrow> keys list" where
  "frames_run [] = []"
| "frames_run (k # ks) = k # (if key_escape k then [] else frames_run ks)"

definition zoom_delta :: "keys \<Rightarrow> float" where
  "zoom_delta k = (if key_up k then zoom_step else 0) - (if key_down k then zoom_step else 0)"

subsection \<open>One step of the hook\<close>

lemma rezoom_paint:
  "rezoom d s = Some (s\<lparr>glob := (glob s)\<lparr>zoom := zoom (glob s) + d,
      image := paint ((glob s)\<lparr>zoom := zoom (glob s) + d\<rparr>) (image (glob s))\<rparr>\<rparr>)"
  by (simp add: rezoom_def ft_fractal_paint)

lemma rendered_paint: "rendered (g\<lparr>image := paint g (image g)\<rparr>)"
  by (simp add: rendered_def paint_ignores_image paint_idem)

lemma ft_hook_cases:
  "ft_hook k s = Some s' \<Longrightarrow>
     should_close s' = (should_close s \<or> key_escape k) \<and>
     g_fractal_type (glob s') = g_fractal_type (glob s) \<and> g_max_iter (glob s') = g_max_iter (glob s) \<and>
     image (glob s') = (if key_up k \<or> key_down k then paint (glob s') (image (glob s)) else image (glob s)) \<and>
     zoom (glob s') = zoom (glob s) + (if key_up k then zoom_step else 0) - (if key_down k then zoom_step else 0)"
  by (auto simp: ft_hook_def rezoom_paint paint_ignores_image paint_overwrites split: if_splits)

lemma mlx_loop_closed: "should_close s \<Longrightarrow> mlx_loop ks s = Some s"
  by (cases ks) simp_all

lemma ft_hook_escape_closes: "key_escape k \<Longrightarrow> ft_hook k s = Some s' \<Longrightarrow> should_close s'"
  using ft_hook_cases by blast

lemma paint_cong:
  "g_fractal_type g = g_fractal_type g' \<Longrightarrow> g_max_iter g = g_max_iter g' \<Longrightarrow> zoom g = zoom g' \<Longrightarrow>
     paint g = paint g'"
  by (simp add: paint_def pixel_color_def pixel_iter_def dispatch_def fun_eq_iff)

lemma ft_hook_Some: "\<exists>s'. ft_hook k s = Some s'"
  by (simp add: ft_hook_def rezoom_paint)

lemma mlx_loop_Some: "\<exists>s'. mlx_loop ks s = Some s'"
proof (induction ks arbitrary: s)
  case (Cons k ks)
  obtain s1 where "ft_hook k s = Some s1" using ft_hook_Some by blast
  with Cons.IH [of s1] show ?case by auto
qed simp

lemma ctrl_inv_step:
  assumes inv: "ctrl_inv t m s" and step: "ft_hook k s = Some s'"
  shows "ctrl_inv t m s'"
proof -
  from ft_hook_cases [OF step] have
    tag: "g_fractal_type (glob s') = g_fractal_type (glob s)" and
    cap: "g_max_iter (glob s') = g_max_iter (glob s)" and
    img: "image (glob s') = (if key_up k \<or> key_down k then paint (glob s') (image (glob s)) else image (glob s))" and
    zm: "zoom (glob s') = zoom (glob s) + (if key_up k then zoom_step else 0) - (if key_down k then zoom_step else 0)"
    by blast+
  have dims: "img_width (image (glob s')) = WIDTH" "img_height (image (glob s')) = HEIGHT"
    using inv img by (simp_all add: ctrl_inv_def split: if_splits)
  have ren: "rendered (glob s')"
  proof (cases "key_up k \<or> key_down k")
    case True
    with img have "image (glob s') = paint (glob s') (image (glob s))" by simp
    then show ?thesis by (simp only: rendered_def paint_overwrites)
  next
    case False
    with zm have "zoom (glob s') = zoom (glob s)" by simp
    with tag cap have "paint (glob s') = paint (glob s)" by (rule paint_cong)
    moreover from False img have "image (glob s') = image (glob s)" by simp
    ultimately show ?thesis using inv by (simp add: ctrl_inv_def rendered_def)
  qed
  obtain j :: int where j: "zoom (glob s) = 1 + of_int j * zoom_step"
    using inv by (auto simp: ctrl_inv_def)
  have "zoom (glob s') = 1 + of_int (j + (if key_up k then 1 else 0) - (if key_down k then 1 else 0)) * zoom_step"
    by (simp only: zm j) (simp add: algebra_simps)
  then have grid: "\<exists>k::int. zoom (glob s') = 1 + of_int k * zoom_step" by blast
  from inv tag cap dims ren grid show ?thesis by (simp add: ctrl_inv_def)
qed

lemma reachable_ctrl_inv: "reachable s \<Longrightarrow> \<exists>t m. ctrl_inv t m s"
proof (induction rule: reachable.induct)
  case (start t m img g)
  have "image (start_globals t m img) = img" by (simp add: start_globals_def)
  with start.hyps(5) have g: "g = (start_globals t m img)\<lparr>image := paint (start_globals t m img) img\<rparr>"
    by (simp add: ft_fractal_paint)
  have "rendered g" using rendered_paint [of "start_globals t m img"] by (simp add: g start_globals_def)
  moreover have "zoom g = 1 + of_int 0 * zoom_step" by (simp add: g start_globals_def)
  ultimately have "ctrl_inv t m \<lparr>glob = g, should_close = False\<rparr>"
    using start.hyps(1-4) unfolding ctrl_inv_def by (auto simp: g start_globals_def)
  then show ?case by blast
next
  case (tick s k s')
  then show ?case by (blast intro: ctrl_inv_step)
qed

lemma rendered_pixels:
  "rendered g \<Longrightarrow> x < img_width (image g) \<Longrightarrow> y < img_height (image g) \<Longrightarrow>
     get_color (dispatch g (plane_point (4 / zoom g) x y) 0) (g_max_iter g) = Some (pixels (image g) (x, y))"
proof -
  assume r: "rendered g" and xy: "x < img_width (image g)" "y < img_height (image g)"
  have "pixels (image g) (x, y) = pixels (paint g (image g)) (x, y)"
    using r by (simp add: rendered_def)
  also have "\<dots> = pixel_color g (4 / zoom g) x y" using xy by simp
  finally show ?thesis using get_color_pixel_iter [of g "4 / zoom g" x y] by (simp add: pixel_iter_def)
qed

lemma ft_hook_up_only:
  "ft_hook \<lparr>key_escape = False, key_up = True, key_down = False\<rparr> s =
     Some (s\<lparr>glob := (glob s)\<lparr>zoom := zoom (glob s) + zoom_step,
        image := paint ((glob s)\<lparr>zoom := zoom (glob s) + zoom_step\<rparr>) (image (glob s))\<rparr>\<rparr>)"
  by (simp add: ft_hook_def rezoom_paint)

lemma ft_hook_down_only:
  "ft_hook \<lparr>key_escape = False, key_up = False, key_down = True\<rparr> s =
     Some (s\<lparr>glob := (glob s)\<lparr>zoom := zoom (glob s) - zoom_step,
        image := paint ((glob s)\<lparr>zoom := zoom (glob s) - zoom_step\<rparr>) (image (glob s))\<rparr>\<rparr>)"
  by (simp add: ft_hook_def rezoom_paint)

text \<open>Holding Down for \<open>n\<close> frames from a reachable open state reaches a state whose
  zoom is \<open>n\<close> steps lower: nothing bounds the zoom from below.\<close>

lemma reachable_down_run:
  "reachable s \<Longrightarrow> \<not> should_close s \<Longrightarrow>
     \<exists>s'. reachable s' \<and> \<not> should_close s' \<and> zoom (glob s') = zoom (glob s) - of_nat n * zoom_step"
proof (induction n)
  case 0
  then show ?case by auto
next
  case (Suc n)
  then obtain s1 where r: "reachable s1" and o: "\<not> should_close s1"
    and z: "zoom (glob s1) = zoom (glob s) - of_nat n * zoom_step" by blast
  let ?s2 = "s1\<lparr>glob := (glob s1)\<lparr>zoom := zoom (glob s1) - zoom_step,
        image := paint ((glob s1)\<lparr>zoom := zoom (glob s1) - zoom_step\<rparr>) (image (glob s1))\<rparr>\<rparr>"
  have "reachable ?s2" using r o ft_hook_down_only [of s1] by (rule reachable.tick)
  moreover have "\<not> should_close ?s2" "zoom (glob ?s2) = zoom (glob s) - of_nat (Suc n) * zoom_step"
    using o z by (simp_all add: algebra_simps)
  ultimately show ?case by blast
qed

definition demo_state :: fractol_state where
  "demo_state = \<lparr>glob = (start_globals 0 50 \<lparr>img_width = 512, img_height = 512, pixels = \<lambda>_. 0\<rparr>)
     \<lparr>image := paint (start_globals 0 50 \<lparr>img_width = 512, img_height = 512, pixels = \<lambda>_. 0\<rparr>)
        \<lparr>img_width = 512, img_height = 512, pixels = \<lambda>_. 0\<rparr>\<rparr>, should_close = False\<rparr>"

lemma demo_state_reachable: "reachable demo_state"
  unfolding demo_state_def
  by (rule reachable.start) (simp_all add: valid_tag_def WIDTH_def HEIGHT_def ft_fractal_paint start_globals_def)

subsection \<open>Properties of the controller\<close>

text \<open>C9. In every state the running program can reach, the tag and cap are those
  \<^verbatim>\<open>main\<close> accepted (a valid tag, a positive cap), the image is \<open>512 \<times> 512\<close>, and
  every pixel shows the colour of its own count at the current zoom: the hook re-renders
  after every zoom change, so the display never lags the zoom.\<close>

theorem reachable_display_consistent:
  assumes "reachable s"
  shows "valid_tag (g_fractal_type (glob s)) \<and> 0 < g_max_iter (glob s) \<and>
    img_width (image (glob s)) = 512 \<and> img_height (image (glob s)) = 512 \<and>
    (\<forall>x<512. \<forall>y<512. get_color (dispatch (glob s) (plane_point (4 / zoom (glob s)) x y) 0)
        (g_max_iter (glob s)) = Some (pixels (image (glob s)) (x, y)))"
proof -
  obtain t m where inv: "ctrl_inv t m s" using reachable_ctrl_inv [OF assms] by blast
  then have "rendered (glob s)" and dims: "img_width (image (glob s)) = 512"
      "img_height (image (glob s)) = 512"
    by (simp_all add: ctrl_inv_def WIDTH_def HEIGHT_def)
  then have "\<forall>x<512. \<forall>y<512. get_color (dispatch (glob s) (plane_point (4 / zoom (glob s)) x y) 0)
        (g_max_iter (glob s)) = Some (pixels (image (glob s)) (x, y))"
    by (simp add: rendered_pixels)
  with inv dims show ?thesis by (simp add: ctrl_inv_def)
qed

theorem reachable_display_consistent_witness:
  "reachable demo_state \<and> 0 < g_max_iter (glob demo_state) \<and>
   get_color (dispatch (glob demo_state) (plane_point (4 / zoom (glob demo_state)) 256 256) 0)
     (g_max_iter (glob demo_state)) = Some (pixels (image (glob demo_state)) (256, 256))"
  using reachable_display_consistent [OF demo_state_reachable] demo_state_reachable by simp

text \<open>C19. Escape ends the run after its frame: the frames that follow a frame with
  Escape held are never processed.\<close>

theorem escape_ends_loop:
  assumes "key_escape k"
  shows "mlx_loop (ks1 @ k # ks2) s = mlx_loop (ks1 @ [k]) s"
proof (induction ks1 arbitrary: s)
  case Nil
  show ?case
  proof (cases "should_close s")
    case False
    obtain s' where h: "ft_hook k s = Some s'" using ft_hook_Some by blast
    with assms have "should_close s'" by (rule ft_hook_escape_closes)
    with False h show ?thesis by (simp add: mlx_loop_closed)
  qed simp
next
  case (Cons k1 ks1)
  then show ?case by (simp split: option.split)
qed

theorem escape_ends_loop_witness:
  "mlx_loop ([\<lparr>key_escape = False, key_up = True, key_down = False\<rparr>,
      \<lparr>key_escape = True, key_up = False, key_down = False\<rparr>,
      \<lparr>key_escape = False, key_up = True, key_down = False\<rparr>]) demo_state =
   mlx_loop [\<lparr>key_escape = False, key_up = True, key_down = False\<rparr>,
      \<lparr>key_escape = True, key_up = False, key_down = False\<rparr>] demo_state"
  using escape_ends_loop [of "\<lparr>key_escape = True, key_up = False, key_down = False\<rparr>"
      "[\<lparr>key_escape = False, key_up = True, key_down = False\<rparr>]"
      "[\<lparr>key_escape = False, key_up = True, key_down = False\<rparr>]" demo_state]
  by simp

text \<open>C20. No debounce: holding Up for \<open>n\<close> frames re-renders on every frame and
  raises the zoom by \<open>n\<close> steps of 0.1, leaving the window open.\<close>

theorem held_up_key_repeats:
  assumes "\<not> should_close s"
  shows "\<exists>s'. mlx_loop (replicate n \<lparr>key_escape = False, key_up = True, key_down = False\<rparr>) s = Some s' \<and>
    \<not> should_close s' \<and> zoom (glob s') = zoom (glob s) + of_nat n * zoom_step \<and>
    g_fractal_type (glob s') = g_fractal_type (glob s) \<and> g_max_iter (glob s') = g_max_iter (glob s) \<and>
    (0 < n \<longrightarrow> rendered (glob s'))"
  using assms
proof (induction n arbitrary: s)
  case 0
  then show ?case by simp
next
  case (Suc n)
  let ?s1 = "s\<lparr>glob := (glob s)\<lparr>zoom := zoom (glob s) + zoom_step,
        image := paint ((glob s)\<lparr>zoom := zoom (glob s) + zoom_step\<rparr>) (image (glob s))\<rparr>\<rparr>"
  have o: "\<not> should_close ?s1" using Suc.prems by simp
  from Suc.IH [OF o] obtain s' where run: "mlx_loop (replicate n \<lparr>key_escape = False, key_up = True, key_down = False\<rparr>) ?s1 = Some s'"
    and p: "\<not> should_close s'" "zoom (glob s') = zoom (glob ?s1) + of_nat n * zoom_step"
      "g_fractal_type (glob s') = g_fractal_type (glob ?s1)" "g_max_iter (glob s') = g_max_iter (glob ?s1)"
      "0 < n \<longrightarrow> rendered (glob s')" by blast
  have "rendered (glob s')"
  proof (cases n)
    case 0
    with run have "s' = ?s1" by simp
    then show ?thesis using rendered_paint [of "(glob s)\<lparr>zoom := zoom (glob s) + zoom_step\<rparr>"] by simp
  qed (use p in simp)
  with Suc.prems run p show ?case by (simp add: ft_hook_up_only algebra_simps)
qed

theorem held_up_key_repeats_witness:
  "\<exists>s'. mlx_loop (replicate 3 \<lparr>key_escape = False, key_up = True, key_down = False\<rparr>) demo_state = Some s' \<and>
    \<not> should_close s' \<and> zoom (glob s') = zoom (glob demo_state) + of_nat 3 * zoom_step \<and>
    g_fractal_type (glob s') = g_fractal_type (glob demo_state) \<and>
    g_max_iter (glob s') = g_max_iter (glob demo_state) \<and> (0 < (3::nat) \<longrightarrow> rendered (glob s'))"
  by (rule held_up_key_repeats) (simp add: demo_state_def)

text \<open>C29. The zoom has no lower bound: holding Down for eleven frames after start-up
  reaches a state with a negative zoom (which turns the image, C24).\<close>

theorem zoom_reaches_negative: "\<exists>s. reachable s \<and> zoom (glob s) < 0"
proof -
  have "\<not> should_close demo_state" by (simp add: demo_state_def)
  from reachable_down_run [OF demo_state_reachable this, of 11] obtain s where
    "reachable s" "zoom (glob s) = zoom (glob demo_state) - of_nat 11 * zoom_step" by blast
  moreover have "zoom (glob demo_state) - of_nat 11 * zoom_step < 0"
    by (simp add: demo_state_def start_globals_def zoom_step_def)
  ultimately show ?thesis by auto
qed

text \<open>C12. Over a run from an open window, the zoom moves by one step per frame with Up
  held and back by one per frame with Down held, counting the frames up to the first with
  Escape held, and the window ends closed exactly when some frame held Escape.\<close>

theorem mlx_loop_zoom_count:
  assumes "\<not> should_close s" "mlx_loop ks s = Some s'"
  shows "zoom (glob s') = zoom (glob s) + sum_list (map zoom_delta (frames_run ks)) \<and>
    (should_close s' \<longleftrightarrow> (\<exists>k\<in>set ks. key_escape k))"
  using assms
proof (induction ks arbitrary: s)
  case Nil
  then show ?case by simp
next
  case (Cons k ks)
  obtain s1 where h: "ft_hook k s = Some s1" using ft_hook_Some by blast
  have z: "zoom (glob s1) = zoom (glob s) + zoom_delta k" and c: "should_close s1 = key_escape k"
    using ft_hook_cases [OF h] Cons.prems(1) by (simp_all add: zoom_delta_def)
  have l: "mlx_loop ks s1 = Some s'" using Cons.prems h by simp
  show ?case
  proof (cases "key_escape k")
    case True
    with c l mlx_loop_closed [of s1 ks] have "s' = s1" by simp
    with True z c show ?thesis by simp
  next
    case False
    with Cons.IH [of s1] c l z show ?thesis by (simp add: algebra_simps)
  qed
qed

theorem mlx_loop_zoom_count_witness:
  "\<exists>s. mlx_loop [\<lparr>key_escape = False, key_up = True, key_down = False\<rparr>,
             \<lparr>key_escape = True, key_up = True, key_down = True\<rparr>,
             \<lparr>key_escape = False, key_up = True, key_down = False\<rparr>] demo_state = Some s \<and>
     zoom (glob s) = 11 / 10 \<and> should_close s"
proof -
  obtain s where l: "mlx_loop [\<lparr>key_escape = False, key_up = True, key_down = False\<rparr>,
             \<lparr>key_escape = True, key_up = True, key_down = True\<rparr>,
             \<lparr>key_escape = False, key_up = True, key_down = False\<rparr>] demo_state = Some s"
    using mlx_loop_Some by blast
  have "\<not> should_close demo_state" by (simp add: demo_state_def)
  from mlx_loop_zoom_count [OF this l] l show ?thesis
    by (simp add: zoom_delta_def zoom_step_def demo_state_def start_globals_def)
qed

end
