(* ===== verification/CString.thy ===== *)
theory CString
  imports Prelude "HOL-Library.Sublist"
begin

text \<open>
  The string helpers \<^verbatim>\<open>main\<close> uses to read its arguments: \<^verbatim>\<open>ft_strncmp\<close>
  (\<^verbatim>\<open>src/main.c\<close> lines 34--46) and \<^verbatim>\<open>ft_strlen\<close> (lines 47--55), and
  \<^verbatim>\<open>ft_atoi\<close>, which \<^verbatim>\<open>main.c\<close> includes from \<^verbatim>\<open>ft_atoi.c\<close>, a file outside
  \<^verbatim>\<open>src/\<close>; it is modelled from the spec (\<^verbatim>\<open>max_iterations\<close> must parse to a
  positive integer) as the usual libft routine: skip white space, one optional sign,
  then decimal digits, the result stored in an \<open>int\<close>.

  A C string is a \<open>string\<close> (a list of bytes) read through \<open>cstr_at\<close>, which
  gives the terminating NUL past its end; command-line arguments contain no NUL
  (\<open>nul_free\<close>). The loops are \<^theory_text>\<open>function\<close>s with a measure. The lemmas
  characterise \<^verbatim>\<open>ft_strlen\<close> as the length and \<^verbatim>\<open>ft_strncmp\<close> as a comparison of
  the first \<open>n\<close> bytes; with \<open>n = ft_strlen s1\<close> it tests whether \<open>s1\<close> is a prefix of
  \<open>s2\<close>.
\<close>

definition NUL :: char where
  "NUL = CHR 0x00"

definition cstr_at :: "string \<Rightarrow> nat \<Rightarrow> char" where
  "cstr_at s i = (if i < length s then s ! i else NUL)"

definition nul_free :: "string \<Rightarrow> bool" where
  "nul_free s \<longleftrightarrow> NUL \<notin> set s"

function strncmp_loop :: "string \<Rightarrow> string \<Rightarrow> nat \<Rightarrow> nat \<Rightarrow> nat" where
  "strncmp_loop s1 s2 n i =
     (if i < n \<and> cstr_at s1 i = cstr_at s2 i \<and> cstr_at s1 i \<noteq> NUL \<and> cstr_at s2 i \<noteq> NUL
      then strncmp_loop s1 s2 n (Suc i) else i)"
  by pat_completeness auto
termination
  by (relation "measure (\<lambda>(s1, s2, n, i). n - i)") auto

declare strncmp_loop.simps [simp del]

definition ft_strncmp :: "string \<Rightarrow> string \<Rightarrow> nat \<Rightarrow> int" where
  "ft_strncmp s1 s2 n =
     (if n = 0 then 0
      else let i = strncmp_loop s1 s2 n 0 in
        if i = n then 0 else int (of_char (cstr_at s1 i)) - int (of_char (cstr_at s2 i)))"

function strlen_loop :: "string \<Rightarrow> nat \<Rightarrow> nat" where
  "strlen_loop s i = (if cstr_at s i \<noteq> NUL then strlen_loop s (Suc i) else i)"
  by pat_completeness auto
termination
  by (relation "measure (\<lambda>(s, i). length s - i)") (auto simp: cstr_at_def split: if_splits)

declare strlen_loop.simps [simp del]

definition ft_strlen :: "string \<Rightarrow> nat" where
  "ft_strlen s = strlen_loop s 0"

definition is_space :: "char \<Rightarrow> bool" where
  "is_space c \<longleftrightarrow> c = CHR '' '' \<or> (9 \<le> (of_char c :: nat) \<and> (of_char c :: nat) \<le> 13)"

definition is_digit :: "char \<Rightarrow> bool" where
  "is_digit c \<longleftrightarrow> 48 \<le> (of_char c :: nat) \<and> (of_char c :: nat) \<le> 57"

fun atoi_digits :: "int \<Rightarrow> string \<Rightarrow> int" where
  "atoi_digits acc [] = acc"
| "atoi_digits acc (c # cs) =
     (if is_digit c then atoi_digits (acc * 10 + (of_char c - 48)) cs else acc)"

definition ft_atoi :: "string \<Rightarrow> int" where
  "ft_atoi s =
     (let s1 = dropWhile is_space s;
          (sign, s2) = (case s1 of
             c # cs \<Rightarrow> if c = CHR ''-'' then (-1, cs) else if c = CHR ''+'' then (1, cs) else (1, s1)
           | [] \<Rightarrow> (1, []))
      in wrap32 (sign * atoi_digits 0 s2))"

text \<open>The order \<^verbatim>\<open>ft_strncmp\<close> compares bytes in: as \<^verbatim>\<open>unsigned char\<close>.\<close>

definition byte_less :: "(char \<times> char) set" where
  "byte_less = {(u, v). (of_char u :: nat) < of_char v}"

text \<open>Decimal notation of a natural number, most significant digit first: the strings
  a user types as the cap.\<close>

fun decimal :: "nat \<Rightarrow> string" where
  "decimal n = (if n < 10 then [char_of (48 + n)] else decimal (n div 10) @ [char_of (48 + n mod 10)])"

declare decimal.simps [simp del]

subsection \<open>The string loops\<close>

lemma cstr_at_inside: "i < length s \<Longrightarrow> cstr_at s i = s ! i"
  by (simp add: cstr_at_def)

lemma nul_free_nth: "nul_free s \<Longrightarrow> i < length s \<Longrightarrow> s ! i \<noteq> NUL"
  unfolding nul_free_def using nth_mem [of i s] by force

lemma cstr_at_past: "length s \<le> i \<Longrightarrow> cstr_at s i = NUL"
  by (simp add: cstr_at_def)

lemma cstr_at_NUL_iff: "nul_free s \<Longrightarrow> cstr_at s i = NUL \<longleftrightarrow> length s \<le> i"
  by (cases "i < length s") (simp_all add: cstr_at_def nul_free_nth)

lemma strlen_loop_nul_free: "nul_free s \<Longrightarrow> i \<le> length s \<Longrightarrow> strlen_loop s i = length s"
proof (induction s i rule: strlen_loop.induct)
  case (1 s i)
  show ?case
  proof (cases "i < length s")
    case True
    then have "cstr_at s i \<noteq> NUL" using "1.prems"(1) by (simp add: cstr_at_inside nul_free_nth)
    with True "1.IH" "1.prems"(1) show ?thesis by (simp add: strlen_loop.simps [of s i])
  next
    case False
    then have "cstr_at s i = NUL" by (simp add: cstr_at_past)
    then have "strlen_loop s i = i" by (simp add: strlen_loop.simps [of s i])
    with False "1.prems"(2) show ?thesis by simp
  qed
qed

lemma ft_strlen_length: "nul_free s \<Longrightarrow> ft_strlen s = length s"
  by (simp add: ft_strlen_def strlen_loop_nul_free)

text \<open>The comparison loop stops at the first index below \<open>n\<close> where the strings
  differ or end, and at \<open>n\<close> if there is none.\<close>

lemma strncmp_loop_bound: "i \<le> n \<Longrightarrow> i \<le> strncmp_loop s1 s2 n i \<and> strncmp_loop s1 s2 n i \<le> n"
proof (induction s1 s2 n i rule: strncmp_loop.induct)
  case (1 s1 s2 n i)
  then show ?case
    by (cases "i < n \<and> cstr_at s1 i = cstr_at s2 i \<and> cstr_at s1 i \<noteq> NUL \<and> cstr_at s2 i \<noteq> NUL")
      (auto simp: strncmp_loop.simps [of s1 s2 n i])
qed

lemma strncmp_loop_agree:
  "i \<le> j \<Longrightarrow> j < strncmp_loop s1 s2 n i \<Longrightarrow> cstr_at s1 j = cstr_at s2 j \<and> cstr_at s1 j \<noteq> NUL"
proof (induction s1 s2 n i rule: strncmp_loop.induct)
  case (1 s1 s2 n i)
  show ?case
  proof (cases "i < n \<and> cstr_at s1 i = cstr_at s2 i \<and> cstr_at s1 i \<noteq> NUL \<and> cstr_at s2 i \<noteq> NUL")
    case go: True
    show ?thesis
    proof (cases "j = i")
      case True
      with go show ?thesis by simp
    next
      case False
      have "strncmp_loop s1 s2 n i = strncmp_loop s1 s2 n (Suc i)"
        by (simp only: strncmp_loop.simps [of s1 s2 n i] if_P [OF go])
      then have "j < strncmp_loop s1 s2 n (Suc i)" using "1.prems"(2) by simp
      moreover have "Suc i \<le> j" using "1.prems"(1) False by simp
      ultimately show ?thesis using "1.IH" [OF go] by blast
    qed
  next
    case False
    have "strncmp_loop s1 s2 n i = i"
      by (simp only: strncmp_loop.simps [of s1 s2 n i] if_not_P [OF False])
    with "1.prems" show ?thesis by simp
  qed
qed

lemma strncmp_loop_stop:
  "strncmp_loop s1 s2 n i < n \<Longrightarrow>
     \<not> (cstr_at s1 (strncmp_loop s1 s2 n i) = cstr_at s2 (strncmp_loop s1 s2 n i) \<and>
        cstr_at s1 (strncmp_loop s1 s2 n i) \<noteq> NUL)"
proof (induction s1 s2 n i rule: strncmp_loop.induct)
  case (1 s1 s2 n i)
  show ?case
  proof (cases "i < n \<and> cstr_at s1 i = cstr_at s2 i \<and> cstr_at s1 i \<noteq> NUL \<and> cstr_at s2 i \<noteq> NUL")
    case go: True
    have eq: "strncmp_loop s1 s2 n i = strncmp_loop s1 s2 n (Suc i)"
      by (simp only: strncmp_loop.simps [of s1 s2 n i] if_P [OF go])
    show ?thesis using "1.IH" [OF go] "1.prems" by (simp add: eq)
  next
    case False
    have eq: "strncmp_loop s1 s2 n i = i"
      by (simp only: strncmp_loop.simps [of s1 s2 n i] if_not_P [OF False])
    show ?thesis using False "1.prems" by (simp add: eq)
  qed
qed

text \<open>On strings without NUL, \<^verbatim>\<open>ft_strncmp\<close> returns 0 exactly when the
  strings agree on their first \<open>n\<close> bytes, the terminators included.\<close>

lemma cstr_at_take: "j < n \<Longrightarrow> cstr_at (take n s) j = cstr_at s j"
  by (auto simp: cstr_at_def)

lemma cstr_agree_take:
  assumes "nul_free s1" "nul_free s2"
  shows "(\<forall>j<n. cstr_at s1 j = cstr_at s2 j) \<longleftrightarrow> take n s1 = take n s2"
proof
  assume a: "\<forall>j<n. cstr_at s1 j = cstr_at s2 j"
  have len: "min n (length s1) = min n (length s2)"
  proof (rule ccontr)
    assume "min n (length s1) \<noteq> min n (length s2)"
    then consider "length s1 < length s2" "length s1 < n" | "length s2 < length s1" "length s2 < n"
      by linarith
    then show False
    proof cases
      case 1
      with a have "cstr_at s2 (length s1) = cstr_at s1 (length s1)" by simp
      also have "\<dots> = NUL" by (simp add: cstr_at_past)
      finally have "length s2 \<le> length s1" using cstr_at_NUL_iff [OF assms(2)] by blast
      with 1 show False by simp
    next
      case 2
      with a have "cstr_at s1 (length s2) = cstr_at s2 (length s2)" by simp
      also have "\<dots> = NUL" by (simp add: cstr_at_past)
      finally have "length s1 \<le> length s2" using cstr_at_NUL_iff [OF assms(1)] by blast
      with 2 show False by simp
    qed
  qed
  show "take n s1 = take n s2"
  proof (rule nth_equalityI)
    show "length (take n s1) = length (take n s2)" using len by simp
    fix j assume "j < length (take n s1)"
    then have "j < n" "j < length s1" "j < length s2" using len by auto
    moreover from a \<open>j < n\<close> have "cstr_at s1 j = cstr_at s2 j" by blast
    ultimately show "take n s1 ! j = take n s2 ! j" by (simp add: cstr_at_inside)
  qed
next
  assume t: "take n s1 = take n s2"
  show "\<forall>j<n. cstr_at s1 j = cstr_at s2 j"
  proof (intro allI impI)
    fix j assume "j < n"
    have "cstr_at (take n s1) j = cstr_at (take n s2) j" using t by simp
    with \<open>j < n\<close> show "cstr_at s1 j = cstr_at s2 j" by (simp add: cstr_at_take)
  qed
qed

lemma ft_strncmp_zero_iff:
  assumes "nul_free s1" "nul_free s2"
  shows "ft_strncmp s1 s2 n = 0 \<longleftrightarrow> take n s1 = take n s2"
proof (cases "n = 0")
  case True
  then show ?thesis by (simp add: ft_strncmp_def)
next
  case False
  let ?i = "strncmp_loop s1 s2 n 0"
  have spec: "(\<forall>j. j < ?i \<longrightarrow> cstr_at s1 j = cstr_at s2 j \<and> cstr_at s1 j \<noteq> NUL) \<and>
      (?i < n \<longrightarrow> \<not> (cstr_at s1 ?i = cstr_at s2 ?i \<and> cstr_at s1 ?i \<noteq> NUL))"
    using strncmp_loop_agree [of 0 _ s1 s2 n] strncmp_loop_stop [of s1 s2 n 0] by blast
  have le: "?i \<le> n" using strncmp_loop_bound [of 0 n s1 s2] by simp
  have "ft_strncmp s1 s2 n = 0 \<longleftrightarrow> (\<forall>j<n. cstr_at s1 j = cstr_at s2 j)"
  proof (cases "?i = n")
    case True
    with spec False show ?thesis by (auto simp: ft_strncmp_def)
  next
    case ne: False
    with le have lt: "?i < n" by simp
    have "ft_strncmp s1 s2 n = 0 \<longleftrightarrow> cstr_at s1 ?i = cstr_at s2 ?i"
      using False ne by (simp add: ft_strncmp_def Let_def)
    also have "\<dots> \<longleftrightarrow> (\<forall>j<n. cstr_at s1 j = cstr_at s2 j)"
    proof
      assume e: "cstr_at s1 ?i = cstr_at s2 ?i"
      with spec lt have nul: "cstr_at s1 ?i = NUL" "cstr_at s2 ?i = NUL" by auto
      then have l: "length s1 \<le> ?i" "length s2 \<le> ?i" using assms by (simp_all add: cstr_at_NUL_iff)
      show "\<forall>j<n. cstr_at s1 j = cstr_at s2 j"
      proof (intro allI impI)
        fix j assume "j < n"
        show "cstr_at s1 j = cstr_at s2 j"
        proof (cases "j < ?i")
          case True
          with spec show ?thesis by blast
        next
          case False
          with l have "length s1 \<le> j" "length s2 \<le> j" by simp_all
          then show ?thesis by (simp add: cstr_at_past)
        qed
      qed
    next
      assume "\<forall>j<n. cstr_at s1 j = cstr_at s2 j"
      with lt show "cstr_at s1 ?i = cstr_at s2 ?i" by simp
    qed
    finally show ?thesis .
  qed
  with cstr_agree_take [OF assms] show ?thesis by simp
qed

lemma take_length_prefix: "take (length s) t = s \<longleftrightarrow> prefix s t"
proof
  assume "take (length s) t = s"
  then have "t = s @ drop (length s) t" by (metis append_take_drop_id)
  then show "prefix s t" by (rule prefixI)
next
  assume "prefix s t"
  then obtain zs where "t = s @ zs" by (auto simp: prefix_def)
  then show "take (length s) t = s" by simp
qed

subsection \<open>Reading a decimal cap\<close>

lemma digit_char:
  assumes "d < 10"
  shows "is_digit (char_of (48 + d)) \<and> of_char (char_of (48 + d)) - 48 = int d"
proof -
  have "(of_char (char_of (48 + d)) :: int) = int (of_char (char_of (48 + d)))"
    by (simp only: of_nat_of_char)
  also have "\<dots> = int (48 + d)" using assms by simp
  finally show ?thesis using assms by (simp add: is_digit_def)
qed

lemma atoi_digits_append:
  "\<forall>c\<in>set xs. is_digit c \<Longrightarrow> atoi_digits acc (xs @ ys) = atoi_digits (atoi_digits acc xs) ys"
  by (induction xs arbitrary: acc) simp_all

lemma decimal_digits: "\<forall>c\<in>set (decimal n). is_digit c"
  by (induction n rule: decimal.induct) (subst decimal.simps, simp add: digit_char)

lemma atoi_digits_decimal: "atoi_digits 0 (decimal n) = int n"
proof (induction n rule: decimal.induct)
  case (1 n)
  show ?case
  proof (cases "n < 10")
    case True
    then show ?thesis using digit_char [of n] by (subst decimal.simps) simp
  next
    case False
    have "atoi_digits 0 (decimal n) =
        atoi_digits (atoi_digits 0 (decimal (n div 10))) [char_of (48 + n mod 10)]"
      using False decimal_digits [of "n div 10"] by (subst decimal.simps) (simp add: atoi_digits_append)
    also have "\<dots> = int (n div 10) * 10 + int (n mod 10)"
      using "1.IH" [OF False] digit_char [of "n mod 10"] by simp
    also have "\<dots> = int n" by (metis div_mult_mod_eq of_nat_add of_nat_mult of_nat_numeral)
    finally show ?thesis .
  qed
qed

lemma decimal_hd: "\<exists>c cs. decimal n = c # cs \<and> is_digit c"
proof -
  have "decimal n \<noteq> []" by (induction n rule: decimal.induct) (subst decimal.simps, simp)
  then obtain c cs where "decimal n = c # cs" by (cases "decimal n") auto
  with decimal_digits [of n] show ?thesis by auto
qed

lemma ft_atoi_decimal:
  assumes "n < 2 ^ 31"
  shows "ft_atoi (decimal n) = int n \<and> ft_atoi (CHR ''-'' # decimal n) = - int n"
proof -
  obtain c cs where d: "decimal n = c # cs" and c: "is_digit c" using decimal_hd by blast
  have sp: "\<not> is_space c" "c \<noteq> CHR ''-''" "c \<noteq> CHR ''+''" "\<not> is_space (CHR ''-'')"
    using c by (auto simp: is_digit_def is_space_def)
  have a: "atoi_digits (of_char c - 48) cs = int n" using atoi_digits_decimal [of n] d c by simp
  have "in_int32 (int n)" "in_int32 (- int n)" using assms by (simp_all add: in_int32_def INT_MIN_def INT_MAX_def)
  with sp c a show ?thesis by (simp add: ft_atoi_def d wrap32_id)
qed

lemma drop_take_at:
  "i < n \<Longrightarrow> drop i (take n s) = (if i < length s then cstr_at s i # drop (Suc i) (take n s) else [])"
proof (cases "i < length s")
  case True
  assume "i < n"
  then have "n - i = Suc (n - Suc i)" by simp
  moreover have "drop i s = s ! i # drop (Suc i) s" using True by (rule Cons_nth_drop_Suc [symmetric])
  ultimately show ?thesis using True by (simp add: cstr_at_def drop_take)
qed simp

lemma of_char_pos: "c \<noteq> NUL \<Longrightarrow> 0 < (of_char c :: nat)"
proof -
  assume "c \<noteq> NUL"
  then have "(of_char c :: nat) \<noteq> of_char NUL" by simp
  then show ?thesis by (simp add: NUL_def)
qed

lemma lexord_byte_same_prefix:
  "(p @ u, p @ v) \<in> lexord byte_less \<longleftrightarrow> (u, v) \<in> lexord byte_less"
  by (simp add: lexord_same_pref_iff byte_less_def)

lemma lexord_at:
  assumes "i < n" "take i s = take i t" "cstr_at s i \<noteq> cstr_at t i"
  shows "(take n s, take n t) \<in> lexord byte_less \<longleftrightarrow>
    (of_char (cstr_at s i) :: nat) < of_char (cstr_at t i)"
proof -
  have split: "take n xs = take i xs @ drop i (take n xs)" for xs :: string
    using assms(1) append_take_drop_id [of i "take n xs"] by (simp add: min_def)
  define u v where "u = drop i (take n s)" and "v = drop i (take n t)"
  have "take n s = take i t @ u" "take n t = take i t @ v"
    using split [of s] split [of t] assms(2) by (simp_all add: u_def v_def)
  then have "(take n s, take n t) \<in> lexord byte_less \<longleftrightarrow> (u, v) \<in> lexord byte_less"
    by (simp add: lexord_byte_same_prefix)
  also have "\<dots> \<longleftrightarrow> (of_char (cstr_at s i) :: nat) < of_char (cstr_at t i)"
  proof (cases "i < length s"; cases "i < length t")
    assume "i < length s" "i < length t"
    with assms(3) show ?thesis by (simp add: u_def v_def drop_take_at [OF assms(1)] byte_less_def)
  next
    assume "i < length s" "\<not> i < length t"
    then show ?thesis by (simp add: u_def v_def drop_take_at [OF assms(1)] cstr_at_past NUL_def)
  next
    assume a: "\<not> i < length s" "i < length t"
    then have "cstr_at t i \<noteq> NUL" using assms(3) by (simp add: cstr_at_past)
    with a show ?thesis
      by (simp add: u_def v_def drop_take_at [OF assms(1)] cstr_at_past of_char_pos NUL_def)
  next
    assume "\<not> i < length s" "\<not> i < length t"
    with assms(3) show ?thesis by (simp add: cstr_at_past)
  qed
  finally show ?thesis .
qed

subsection \<open>Properties of the string helpers\<close>

text \<open>C35. \<^verbatim>\<open>ft_strncmp\<close> is a three-way comparison of the first \<open>n\<close> bytes: on
  NUL-free strings it is zero exactly when they agree, negative exactly when the first
  string's bytes come first in the lexicographic order of unsigned bytes (a proper prefix
  first), and positive exactly when the second's do.\<close>

theorem ft_strncmp_lexord:
  assumes "nul_free s" "nul_free t"
  shows "(ft_strncmp s t n = 0 \<longleftrightarrow> take n s = take n t) \<and>
    (ft_strncmp s t n < 0 \<longleftrightarrow> (take n s, take n t) \<in> lexord byte_less) \<and>
    (0 < ft_strncmp s t n \<longleftrightarrow> (take n t, take n s) \<in> lexord byte_less)"
proof (cases "take n s = take n t")
  case True
  then have "ft_strncmp s t n = 0" using ft_strncmp_zero_iff [OF assms] by simp
  moreover have "(take n s, take n t) \<notin> lexord byte_less"
    using True by (simp add: lexord_irreflexive byte_less_def)
  ultimately show ?thesis using True by simp
next
  case False
  then have nz: "ft_strncmp s t n \<noteq> 0" using ft_strncmp_zero_iff [OF assms] by simp
  then have n: "n \<noteq> 0" by (cases "n = 0") (simp_all add: ft_strncmp_def)
  let ?i = "strncmp_loop s t n 0"
  have ne: "?i \<noteq> n" using nz n by (auto simp: ft_strncmp_def)
  with strncmp_loop_bound [of 0 n s t] have lt: "?i < n" by simp
  have val: "ft_strncmp s t n = int (of_char (cstr_at s ?i)) - int (of_char (cstr_at t ?i))"
    using n ne by (simp add: ft_strncmp_def Let_def)
  have diff: "cstr_at s ?i \<noteq> cstr_at t ?i" using val nz by auto
  have "\<forall>j<?i. cstr_at s j = cstr_at t j" using strncmp_loop_agree [of 0 _ s t n] by blast
  then have pre: "take ?i s = take ?i t" using cstr_agree_take [OF assms] by blast
  have "(take n s, take n t) \<in> lexord byte_less \<longleftrightarrow>
      (of_char (cstr_at s ?i) :: nat) < of_char (cstr_at t ?i)"
    by (rule lexord_at [OF lt pre diff])
  moreover have "(take n t, take n s) \<in> lexord byte_less \<longleftrightarrow>
      (of_char (cstr_at t ?i) :: nat) < of_char (cstr_at s ?i)"
    by (rule lexord_at [OF lt pre [symmetric] diff [symmetric]])
  ultimately show ?thesis using val nz diff by auto
qed

theorem ft_strncmp_lexord_witness:
  "nul_free ''jul'' \<and> nul_free ''julia'' \<and> ft_strncmp ''jul'' ''julia'' 5 < 0 \<and>
   (take 5 ''jul'', take 5 ''julia'') \<in> lexord byte_less"
proof -
  have nf: "nul_free ''jul''" "nul_free ''julia''" by (simp_all add: nul_free_def NUL_def)
  have "ft_strncmp ''jul'' ''julia'' 5 < 0"
    by (simp add: ft_strncmp_def strncmp_loop.simps cstr_at_def NUL_def)
  with ft_strncmp_lexord [OF nf, of 5] nf show ?thesis by blast
qed

end
