(* ===== verification/Bootstrap.thy ===== *)
theory Bootstrap
  imports Controller CString
begin

text \<open>
  The bootstrap of \<^verbatim>\<open>src/main.c\<close>: \<^verbatim>\<open>main\<close> (lines 176--238). It checks the
  argument count, reads the fractal name with \<^verbatim>\<open>ft_strncmp(argv[1], name,
  ft_strlen(argv[1]))\<close> against the three names in order (\<open>parse_fractal_type\<close>),
  reads the cap with \<^verbatim>\<open>ft_atoi\<close> and rejects a non-positive one, sets up MLX42
  (window, image, attachment), renders the first frame, installs \<^verbatim>\<open>ft_hook\<close> and runs
  the event loop, then terminates MLX42.

  \<open>main\<close> returns the exit status, the sequence of external effects in the order the
  code performs them (messages printed, MLX42 calls, the render), and the final state
  when the event loop ran. The outcomes of the three MLX42 set-up calls are inputs
  (\<open>mlx_env\<close>), as is the keyboard of each frame the loop runs before the window
  closes. A render that traps would kill the process (\<open>Trapped\<close>); the renderer never
  traps (\<open>ft_fractal_paint\<close>), so that status does not occur.
\<close>

datatype exit_status = EXIT_SUCCESS | EXIT_FAILURE | Trapped

datatype message = Msg_usage | Msg_fractal_types | Msg_invalid_type | Msg_bad_iter | Msg_mlx_error

datatype effect =
  Print message | Mlx_init | Mlx_new_image | Mlx_image_to_window | Mlx_close_window
  | Render | Mlx_loop_hook | Mlx_loop | Mlx_terminate

record mlx_env =
  init_ok :: bool
  new_image_ok :: bool
  attach_ok :: bool

text \<open>\<^verbatim>\<open>mlx_new_image\<close> (MLX42, from the spec's \<^verbatim>\<open>createImageBuffer\<close>): a cleared
  image of the requested size.\<close>

definition mlx_new_image :: "nat \<Rightarrow> nat \<Rightarrow> mlx_image" where
  "mlx_new_image w h = \<lparr>img_width = w, img_height = h, pixels = \<lambda>_. 0\<rparr>"

definition parse_fractal_type :: "string \<Rightarrow> int option" where
  "parse_fractal_type a =
     (if ft_strncmp a ''mandelbrot'' (ft_strlen a) = 0 then Some 0
      else if ft_strncmp a ''julia'' (ft_strlen a) = 0 then Some 1
      else if ft_strncmp a ''burning_ship'' (ft_strlen a) = 0 then Some 2
      else None)"

definition run_window :: "int \<Rightarrow> int \<Rightarrow> keys list \<Rightarrow> exit_status \<times> effect list \<times> fractol_state option" where
  "run_window t m ks =
     (case ft_fractal (start_globals t m (mlx_new_image WIDTH HEIGHT)) of
        None \<Rightarrow> (Trapped, [Mlx_init, Mlx_new_image, Mlx_image_to_window, Render], None)
      | Some g \<Rightarrow>
          (case mlx_loop ks \<lparr>glob = g, should_close = False\<rparr> of
             None \<Rightarrow> (Trapped, [Mlx_init, Mlx_new_image, Mlx_image_to_window, Render, Mlx_loop_hook, Mlx_loop], None)
           | Some s \<Rightarrow> (EXIT_SUCCESS,
               [Mlx_init, Mlx_new_image, Mlx_image_to_window, Render, Mlx_loop_hook, Mlx_loop, Mlx_terminate],
               Some s)))"

definition main :: "string list \<Rightarrow> mlx_env \<Rightarrow> keys list \<Rightarrow> exit_status \<times> effect list \<times> fractol_state option" where
  "main argv env ks =
     (if length argv < 3 then (EXIT_FAILURE, [Print Msg_usage, Print Msg_fractal_types], None)
      else case parse_fractal_type (argv ! 1) of
        None \<Rightarrow> (EXIT_FAILURE, [Print Msg_invalid_type], None)
      | Some t \<Rightarrow>
          (let m = ft_atoi (argv ! 2) in
           if m \<le> 0 then (EXIT_FAILURE, [Print Msg_bad_iter], None)
           else if \<not> init_ok env then (EXIT_FAILURE, [Mlx_init, Print Msg_mlx_error], None)
           else if \<not> new_image_ok env then
             (EXIT_FAILURE, [Mlx_init, Mlx_new_image, Mlx_close_window, Print Msg_mlx_error], None)
           else if \<not> attach_ok env then
             (EXIT_FAILURE, [Mlx_init, Mlx_new_image, Mlx_image_to_window, Mlx_close_window,
               Print Msg_mlx_error], None)
           else run_window t m ks))"

subsection \<open>Reading the arguments\<close>

lemma name_nul_free: "nul_free ''mandelbrot''" "nul_free ''julia''" "nul_free ''burning_ship''"
  by (simp_all add: nul_free_def NUL_def)

lemma strncmp_own_length_prefix:
  "nul_free a \<Longrightarrow> nul_free b \<Longrightarrow> ft_strncmp a b (ft_strlen a) = 0 \<longleftrightarrow> prefix a b"
  by (simp add: ft_strlen_length ft_strncmp_zero_iff take_length_prefix eq_commute [of a])

lemma mlx_loop_reachable: "reachable s \<Longrightarrow> mlx_loop ks s = Some s' \<Longrightarrow> reachable s'"
proof (induction ks arbitrary: s)
  case Nil
  then show ?case by simp
next
  case (Cons k ks)
  show ?case
  proof (cases "should_close s")
    case True
    with Cons.prems show ?thesis by simp
  next
    case False
    obtain s1 where h: "ft_hook k s = Some s1" using ft_hook_Some by blast
    with Cons.prems(1) False have "reachable s1" by (rule reachable.tick)
    moreover have "mlx_loop ks s1 = Some s'" using Cons.prems(2) False h by simp
    ultimately show ?thesis by (rule Cons.IH)
  qed
qed

lemma parse_fractal_type_valid: "parse_fractal_type a = Some t \<Longrightarrow> valid_tag t"
  by (auto simp: parse_fractal_type_def valid_tag_def split: if_splits)

lemma run_window_success:
  "\<exists>s. run_window t m ks = (EXIT_SUCCESS,
      [Mlx_init, Mlx_new_image, Mlx_image_to_window, Render, Mlx_loop_hook, Mlx_loop, Mlx_terminate], Some s) \<and>
    mlx_loop ks \<lparr>glob = (start_globals t m (mlx_new_image WIDTH HEIGHT))\<lparr>image :=
       paint (start_globals t m (mlx_new_image WIDTH HEIGHT)) (mlx_new_image WIDTH HEIGHT)\<rparr>,
       should_close = False\<rparr> = Some s"
proof -
  let ?g = "start_globals t m (mlx_new_image WIDTH HEIGHT)"
  obtain s where l: "mlx_loop ks \<lparr>glob = ?g\<lparr>image := paint ?g (mlx_new_image WIDTH HEIGHT)\<rparr>,
       should_close = False\<rparr> = Some s" using mlx_loop_Some by blast
  have "ft_fractal ?g = Some (?g\<lparr>image := paint ?g (mlx_new_image WIDTH HEIGHT)\<rparr>)"
    by (simp add: ft_fractal_paint start_globals_def)
  with l show ?thesis by (simp add: run_window_def)
qed

lemma main_success:
  assumes "3 \<le> length argv" "parse_fractal_type (argv ! 1) = Some t" "0 < ft_atoi (argv ! 2)"
    and "init_ok env" "new_image_ok env" "attach_ok env"
  shows "\<exists>s. main argv env ks = (EXIT_SUCCESS,
      [Mlx_init, Mlx_new_image, Mlx_image_to_window, Render, Mlx_loop_hook, Mlx_loop, Mlx_terminate], Some s) \<and>
    mlx_loop ks \<lparr>glob = (start_globals t (ft_atoi (argv ! 2)) (mlx_new_image WIDTH HEIGHT))\<lparr>image :=
       paint (start_globals t (ft_atoi (argv ! 2)) (mlx_new_image WIDTH HEIGHT)) (mlx_new_image WIDTH HEIGHT)\<rparr>,
       should_close = False\<rparr> = Some s"
  using assms run_window_success [of t "ft_atoi (argv ! 2)" ks] by (simp add: main_def)

lemma mlx_loop_keeps_params:
  "mlx_loop ks s = Some s' \<Longrightarrow>
     g_fractal_type (glob s') = g_fractal_type (glob s) \<and> g_max_iter (glob s') = g_max_iter (glob s)"
proof (induction ks arbitrary: s)
  case (Cons k ks)
  show ?case
  proof (cases "should_close s")
    case False
    obtain s1 where h: "ft_hook k s = Some s1" using ft_hook_Some by blast
    with Cons.prems False have "mlx_loop ks s1 = Some s'" by simp
    with Cons.IH ft_hook_cases [OF h] show ?thesis by simp
  qed (use Cons.prems in simp)
qed simp

lemma main_Some_run:
  assumes "main argv env ks = (st, tr, Some s)"
  obtains t g where "3 \<le> length argv" "parse_fractal_type (argv ! 1) = Some t" "0 < ft_atoi (argv ! 2)"
    "ft_fractal (start_globals t (ft_atoi (argv ! 2)) (mlx_new_image WIDTH HEIGHT)) = Some g"
    "mlx_loop ks \<lparr>glob = g, should_close = False\<rparr> = Some s" "st = EXIT_SUCCESS"
    "tr = [Mlx_init, Mlx_new_image, Mlx_image_to_window, Render, Mlx_loop_hook, Mlx_loop, Mlx_terminate]"
  using assms by (auto simp: main_def run_window_def Let_def split: if_splits option.splits)

lemma main_Some_reachable:
  assumes "main argv env ks = (st, tr, Some s)"
  shows "reachable s \<and> parse_fractal_type (argv ! 1) = Some (g_fractal_type (glob s)) \<and>
    g_max_iter (glob s) = ft_atoi (argv ! 2)"
proof -
  obtain t g where p: "parse_fractal_type (argv ! 1) = Some t" and m: "0 < ft_atoi (argv ! 2)"
    and f: "ft_fractal (start_globals t (ft_atoi (argv ! 2)) (mlx_new_image WIDTH HEIGHT)) = Some g"
    and l: "mlx_loop ks \<lparr>glob = g, should_close = False\<rparr> = Some s"
    using assms by (rule main_Some_run)
  have "reachable \<lparr>glob = g, should_close = False\<rparr>"
    using parse_fractal_type_valid [OF p] m f by (intro reachable.start) (simp_all add: mlx_new_image_def)
  then have "reachable s" using l by (rule mlx_loop_reachable)
  moreover have "g_fractal_type (glob s) = t" "g_max_iter (glob s) = ft_atoi (argv ! 2)"
    using mlx_loop_keeps_params [OF l] f by (auto simp: ft_fractal_paint start_globals_def)
  ultimately show ?thesis using p by simp
qed

lemmas parse_eval = parse_fractal_type_def ft_strncmp_def ft_strlen_def strlen_loop.simps
  strncmp_loop.simps cstr_at_def NUL_def

lemmas atoi_eval = ft_atoi_def is_space_def is_digit_def wrap32_def

subsection \<open>Properties of the command line\<close>

text \<open>C31. Fewer than two arguments: \<^verbatim>\<open>main\<close> prints the usage and the fractal
  names and fails, before any other effect.\<close>

theorem main_usage_error:
  "length argv < 3 \<Longrightarrow> main argv env ks = (EXIT_FAILURE, [Print Msg_usage, Print Msg_fractal_types], None)"
  by (simp add: main_def)

theorem main_usage_error_witness:
  "length [''fractol'', ''julia''] < 3 \<and>
   main [''fractol'', ''julia''] \<lparr>init_ok = True, new_image_ok = True, attach_ok = True\<rparr> [] =
     (EXIT_FAILURE, [Print Msg_usage, Print Msg_fractal_types], None)"
  using main_usage_error [of "[''fractol'', ''julia'']" "\<lparr>init_ok = True, new_image_ok = True, attach_ok = True\<rparr>" "[]"] by simp

text \<open>C13. An unrecognised fractal name makes \<^verbatim>\<open>main\<close> print the error and fail
  without any MLX42 call: no window is created.\<close>

theorem main_invalid_type_no_window:
  assumes "3 \<le> length argv" "parse_fractal_type (argv ! 1) = None"
  shows "main argv env ks = (EXIT_FAILURE, [Print Msg_invalid_type], None)"
  using assms by (simp add: main_def)

theorem main_invalid_type_no_window_witness:
  "main [''fractol'', ''foo'', ''50''] \<lparr>init_ok = True, new_image_ok = True, attach_ok = True\<rparr> [] =
     (EXIT_FAILURE, [Print Msg_invalid_type], None)"
proof (rule main_invalid_type_no_window)
  show "parse_fractal_type ([''fractol'', ''foo'', ''50''] ! 1) = None" by (simp add: parse_eval)
qed simp

text \<open>C14. A cap that \<^verbatim>\<open>ft_atoi\<close> reads as zero or negative makes \<^verbatim>\<open>main\<close>
  print the error and fail before any MLX42 call or render.\<close>

theorem main_nonpositive_cap_error:
  assumes "3 \<le> length argv" "parse_fractal_type (argv ! 1) = Some t" "ft_atoi (argv ! 2) \<le> 0"
  shows "main argv env ks = (EXIT_FAILURE, [Print Msg_bad_iter], None)"
  using assms by (simp add: main_def)

theorem main_nonpositive_cap_error_witness:
  "main [''fractol'', ''mandelbrot'', ''-5''] \<lparr>init_ok = True, new_image_ok = True, attach_ok = True\<rparr> [] =
     (EXIT_FAILURE, [Print Msg_bad_iter], None)"
proof (rule main_nonpositive_cap_error)
  show "parse_fractal_type ([''fractol'', ''mandelbrot'', ''-5''] ! 1) = Some 0" by (simp add: parse_eval)
  show "ft_atoi ([''fractol'', ''mandelbrot'', ''-5''] ! 2) \<le> 0" by (simp add: atoi_eval)
qed simp

text \<open>C32. The fractal name is matched as a prefix: since the comparison length is
  \<^verbatim>\<open>ft_strlen(argv[1])\<close>, any prefix of a name selects it, the empty string
  included, tried in the order mandelbrot, julia, burning_ship.\<close>

theorem parse_fractal_type_prefix:
  assumes "nul_free a"
  shows "parse_fractal_type a =
    (if prefix a ''mandelbrot'' then Some 0 else if prefix a ''julia'' then Some 1
     else if prefix a ''burning_ship'' then Some 2 else None)"
  using assms name_nul_free by (simp add: parse_fractal_type_def strncmp_own_length_prefix)

theorem parse_fractal_type_prefix_witness:
  "parse_fractal_type ''jul'' = Some 1 \<and> parse_fractal_type ''burn'' = Some 2"
proof -
  have "nul_free ''jul''" "nul_free ''burn''" by (simp_all add: nul_free_def NUL_def)
  from parse_fractal_type_prefix [OF this(1)] parse_fractal_type_prefix [OF this(2)]
  show ?thesis by simp
qed

text \<open>C34. When the MLX42 image set-up fails, \<^verbatim>\<open>main\<close> only requests the
  window's close (\<^verbatim>\<open>mlx_close_window\<close>) and returns: \<^verbatim>\<open>mlx_terminate\<close> is never
  called, so what \<^verbatim>\<open>mlx_init\<close> allocated is not released.\<close>

theorem main_setup_failure_no_terminate:
  assumes "3 \<le> length argv" "parse_fractal_type (argv ! 1) = Some t" "0 < ft_atoi (argv ! 2)"
    and "init_ok env" "\<not> new_image_ok env \<or> \<not> attach_ok env"
  shows "fst (main argv env ks) = EXIT_FAILURE \<and> Mlx_init \<in> set (fst (snd (main argv env ks))) \<and>
    Mlx_terminate \<notin> set (fst (snd (main argv env ks)))"
  using assms by (auto simp: main_def)

theorem main_setup_failure_no_terminate_witness:
  "fst (main [''fractol'', ''julia'', ''50''] \<lparr>init_ok = True, new_image_ok = False, attach_ok = True\<rparr> [])
     = EXIT_FAILURE \<and>
   Mlx_init \<in> set (fst (snd (main [''fractol'', ''julia'', ''50'']
     \<lparr>init_ok = True, new_image_ok = False, attach_ok = True\<rparr> []))) \<and>
   Mlx_terminate \<notin> set (fst (snd (main [''fractol'', ''julia'', ''50'']
     \<lparr>init_ok = True, new_image_ok = False, attach_ok = True\<rparr> [])))"
proof (rule main_setup_failure_no_terminate)
  show "parse_fractal_type ([''fractol'', ''julia'', ''50''] ! 1) = Some 1" by (simp add: parse_eval)
  show "0 < ft_atoi ([''fractol'', ''julia'', ''50''] ! 2)" by (simp add: atoi_eval)
qed simp_all

text \<open>C33. \<^verbatim>\<open>main\<close> reads the cap a user types: with a recognised name and MLX42
  available, the decimal notation of \<open>0 < n < 2\<^sup>31\<close> starts a run whose cap is \<open>n\<close>,
  while \<open>-n\<close> is refused with the cap error.\<close>

theorem main_decimal_cap:
  assumes "parse_fractal_type a = Some t" "0 < n" "n < 2 ^ 31"
    and "init_ok env" "new_image_ok env" "attach_ok env"
  shows "(\<exists>s. main [p, a, decimal n] env ks = (EXIT_SUCCESS,
      [Mlx_init, Mlx_new_image, Mlx_image_to_window, Render, Mlx_loop_hook, Mlx_loop, Mlx_terminate], Some s) \<and>
      g_max_iter (glob s) = int n) \<and>
    main [p, a, CHR ''-'' # decimal n] env ks = (EXIT_FAILURE, [Print Msg_bad_iter], None)"
proof -
  have d: "ft_atoi (decimal n) = int n" "ft_atoi (CHR ''-'' # decimal n) = - int n"
    using ft_atoi_decimal [OF assms(3)] by simp_all
  obtain s where r: "main [p, a, decimal n] env ks = (EXIT_SUCCESS,
      [Mlx_init, Mlx_new_image, Mlx_image_to_window, Render, Mlx_loop_hook, Mlx_loop, Mlx_terminate], Some s)"
    using main_success [of "[p, a, decimal n]" t env ks] assms d by auto
  have "g_max_iter (glob s) = int n" using main_Some_reachable [OF r] d by simp
  moreover have "main [p, a, CHR ''-'' # decimal n] env ks = (EXIT_FAILURE, [Print Msg_bad_iter], None)"
    using assms(1) d by (simp add: main_def)
  ultimately show ?thesis using r by blast
qed

theorem main_decimal_cap_witness:
  "(\<exists>s. main [''fractol'', ''julia'', decimal 50] \<lparr>init_ok = True, new_image_ok = True, attach_ok = True\<rparr> [] =
      (EXIT_SUCCESS, [Mlx_init, Mlx_new_image, Mlx_image_to_window, Render, Mlx_loop_hook, Mlx_loop,
        Mlx_terminate], Some s) \<and> g_max_iter (glob s) = 50) \<and>
   main [''fractol'', ''julia'', CHR ''-'' # decimal 50] \<lparr>init_ok = True, new_image_ok = True, attach_ok = True\<rparr> [] =
     (EXIT_FAILURE, [Print Msg_bad_iter], None)"
proof -
  have "parse_fractal_type ''julia'' = Some 1" by (simp add: parse_eval)
  from main_decimal_cap [OF this, of 50] show ?thesis by simp
qed

end
