(* ===== verification/Spec2Isabelle.thy ===== *)
theory Spec2Isabelle
  imports Bootstrap
begin

text \<open>
  \<^bold>\<open>A verification development of fract-ol.\<close> The program is the single file
  \<^verbatim>\<open>src/main.c\<close>: it draws the Mandelbrot set, a Julia set or the Burning Ship
  in a \<open>512 \<times> 512\<close> MLX42 window, colours each pixel by its escape count, and zooms
  with the Up and Down keys. Its parts and the theories that model them, in the
  order the calls go:

  \<^item> \<^bold>\<open>Bootstrap\<close> (\<^verbatim>\<open>main\<close>, lines 176--238; theory \<open>Bootstrap\<close>) reads
    the arguments with the string helpers of \<open>CString\<close>, sets up MLX42, renders the first
    frame, installs the hook and runs the event loop. \<open>main argv env ks\<close> returns the
    exit status, the list of external effects in the code's order, and the final state;
    the outcome of each MLX42 set-up call is an input (\<open>mlx_env\<close>), and so is the
    keyboard of each frame the loop runs (\<open>ks\<close>, one \<open>keys\<close> record per frame).
  \<^item> \<^bold>\<open>String helpers\<close> (\<^verbatim>\<open>ft_strncmp\<close> lines 34--46, \<^verbatim>\<open>ft_strlen\<close> lines
    47--55; theory \<open>CString\<close>): C strings as byte lists read through \<open>cstr_at\<close>, the
    loops as measured \<^theory_text>\<open>function\<close>s. \<^verbatim>\<open>ft_atoi\<close> lives in
    \<^verbatim>\<open>ft_atoi.c\<close>, outside \<^verbatim>\<open>src/\<close>, and is modelled from the spec as the libft routine.
  \<^item> \<^bold>\<open>Controller\<close> (\<^verbatim>\<open>ft_hook\<close>, lines 151--167; theory \<open>Controller\<close>): one
    frame of the hook on a \<open>fractol_state\<close> (the globals and the window's close flag);
    \<open>mlx_loop\<close> runs it over the frames until the window closes; \<open>reachable\<close> is the
    inductive set of states after the first render.
  \<^item> \<^bold>\<open>Renderer\<close> (\<^verbatim>\<open>ft_fractal\<close>, lines 123--149; theory \<open>Render\<close>): the
    globals \<^verbatim>\<open>g_fractal_type\<close>, \<^verbatim>\<open>g_max_iter\<close>, \<^verbatim>\<open>zoom\<close> and \<^verbatim>\<open>image\<close>
    are the record \<open>globals\<close>; the two nested loops are \<open>fractal_rows\<close> and
    \<open>fractal_column\<close>, which carry the C variable \<^verbatim>\<open>iter\<close> from pixel to pixel as
    the code does, and \<open>dispatch\<close> is the \<^verbatim>\<open>if\<close> chain on the tag.
  \<^item> \<^bold>\<open>Colouring\<close> (\<^verbatim>\<open>ft_pixel\<close> lines 59--62, \<^verbatim>\<open>get_color\<close> lines 109--121;
    theory \<open>Color\<close>): \<open>32 word\<close> RGBA values built by shifts and \<open>OR\<close>; the
    products and quotients of \<^verbatim>\<open>get_color\<close> are C \<open>int\<close> operations with
    wrap-around (\<open>c_mul\<close>) and the trap of a zero divisor (\<open>c_div\<close>, result
    \<open>None\<close>) from \<open>Prelude\<close>.
  \<^item> \<^bold>\<open>Escape-time iterators\<close> (\<^verbatim>\<open>julia_iterator\<close>, \<^verbatim>\<open>burning_ship_iterator\<close>,
    \<^verbatim>\<open>mandelbrot_iterator\<close>, lines 64--107; theory \<open>Escape\<close>): the three loops are
    one \<open>escape_loop\<close> over a step function, terminating by the measure
    \<open>maxIter - i\<close>; \<open>escape_time\<close> is the reference definition (index of the first
    escaping iterate, by structural recursion) and \<open>escape_loop_spec\<close> the
    refinement between them.
  \<^item> \<^bold>\<open>Complex arithmetic\<close> (the struct \<^verbatim>\<open>Complex\<close>, \<^verbatim>\<open>square\<close>, \<^verbatim>\<open>add\<close>, lines
    11--28; theory \<open>Complex_Arith\<close>): a record over \<open>real\<close>.

  \<^bold>\<open>Modelling choices.\<close> \<^verbatim>\<open>double\<close> and \<^verbatim>\<open>float\<close> are \<open>real\<close>: the lemmas hold of exact
  arithmetic, not of IEEE rounding, and a zoom of exactly 0 gives HOL's \<open>4 / 0 = 0\<close>
  where C gives an infinite range. C \<open>int\<close> arithmetic that can overflow is written out
  at 32 bits. Every loop of the code is bounded (the pixel loops by the image size, the
  escape loops by \<^verbatim>\<open>max_iter\<close>, the string loops by the string's NUL), so all
  definitions are total and executable and no fuel is needed; \<^verbatim>\<open>mlx_loop\<close> runs
  until the window closes, which the model takes as a finite list of frames: any
  finite prefix of a run is one such list. The renderer's results are \<open>option\<close>s only
  because \<^verbatim>\<open>get_color\<close> may divide by zero; \<open>ft_fractal_paint\<close> shows it never does
  when it is reached, so \<open>ft_fractal\<close> always returns.

  \<^bold>\<open>What the lemmas show.\<close> \<open>Escape\<close>: each iterator returns the index of the
  first escaping iterate, or the cap, and stays in \<open>[0, maxIter]\<close>; through the
  abstraction \<open>to_complex\<close> the Mandelbrot evaluator returns the cap exactly when the
  first \<open>maxIter\<close> iterates of \<open>w \<mapsto> w\<^sup>2 + c\<close> in HOL's \<open>complex\<close> stay in the disc of
  radius 2; points far out escape at once; the Burning Ship agrees with the Mandelbrot
  set on the real axis; the real segment \<open>[-2, 1/4]\<close> never escapes. \<open>Color\<close>: the
  sentinel is the dark grey \<open>0x141414FF\<close>; below \<open>ramp_limit\<close> the ramp's channels are
  \<open>255, 128, 64\<close> times the count over the cap, each within its byte; \<open>ft_pixel\<close>
  round-trips through its channels; a zero cap traps if reached; above \<open>ramp_limit\<close>
  the red product wraps and the red value turns negative (a finding). \<open>Render\<close>:
  \<open>ft_fractal\<close> is refined by the specification \<open>paint\<close> (every in-range pixel is the
  colour of its own count), maps the centre to the sentinel, gives images with the
  fractals' symmetries, shows at a higher zoom each pixel's point scaled towards the
  centre, and rotates the image at a negative zoom. \<open>Controller\<close>: every reachable
  state shows a full render of its zoom, the zoom is the sum of the key steps up to
  Escape, Escape ends the loop, a held key repeats its step, and the zoom has no lower
  bound (a finding). \<open>CString\<close>/\<open>Bootstrap\<close>: \<^verbatim>\<open>ft_strlen\<close> is the length and
  \<^verbatim>\<open>ft_strncmp\<close> is a three-way comparison in the lexicographic order of unsigned
  bytes, so the name test accepts any prefix of a fractal name, the empty one included
  (a finding); a decimal cap is read back exactly; each error path prints its message
  and fails before any later effect; a failed MLX42 set-up never calls
  \<^verbatim>\<open>mlx_terminate\<close> (a finding). This theory proves the end-to-end properties: the
  exact exit status of every run; that a successful run performs the MLX42 calls in the
  code's order and ends in a reachable state; and the spec's scenario that a Mandelbrot
  or Burning Ship run ends with the centre pixel in the sentinel grey.

  \<^bold>\<open>Not modelled.\<close> The internals of MLX42 (window, OpenGL, the event queue, key
  polling beyond the three keys the hook reads), the text \<^verbatim>\<open>printf\<close> and
  \<^verbatim>\<open>puts\<close> print (a message is a constructor), the \<^verbatim>\<open>mlx_errno\<close> string, and
  floating-point rounding.
\<close>

section \<open>Properties of the whole program\<close>

text \<open>C4. A run of \<^verbatim>\<open>main\<close> that reaches the event loop returns
  \<^verbatim>\<open>EXIT_SUCCESS\<close> after exactly the MLX42 calls of the code, in its order, and ends in a
  state of the controller's reachable set, with the fractal the name selected and the
  cap \<^verbatim>\<open>ft_atoi\<close> read.\<close>

theorem main_success_run:
  assumes "main argv env ks = (st, tr, Some s)"
  shows "st = EXIT_SUCCESS \<and>
    tr = [Mlx_init, Mlx_new_image, Mlx_image_to_window, Render, Mlx_loop_hook, Mlx_loop, Mlx_terminate] \<and>
    reachable s \<and> parse_fractal_type (argv ! 1) = Some (g_fractal_type (glob s)) \<and>
    g_max_iter (glob s) = ft_atoi (argv ! 2)"
  using main_Some_run [OF assms] main_Some_reachable [OF assms] by blast

theorem main_success_run_witness:
  "\<exists>s. main [''fractol'', ''julia'', ''50''] \<lparr>init_ok = True, new_image_ok = True, attach_ok = True\<rparr>
     [\<lparr>key_escape = False, key_up = True, key_down = False\<rparr>] =
     (EXIT_SUCCESS, [Mlx_init, Mlx_new_image, Mlx_image_to_window, Render, Mlx_loop_hook, Mlx_loop, Mlx_terminate],
      Some s) \<and> reachable s \<and> g_fractal_type (glob s) = 1 \<and> g_max_iter (glob s) = 50"
proof -
  have "parse_fractal_type ([''fractol'', ''julia'', ''50''] ! 1) = Some 1" by (simp add: parse_eval)
  moreover have "ft_atoi ([''fractol'', ''julia'', ''50''] ! 2) = 50" by (simp add: atoi_eval)
  ultimately obtain s where r: "main [''fractol'', ''julia'', ''50'']
     \<lparr>init_ok = True, new_image_ok = True, attach_ok = True\<rparr> [\<lparr>key_escape = False, key_up = True, key_down = False\<rparr>] =
     (EXIT_SUCCESS, [Mlx_init, Mlx_new_image, Mlx_image_to_window, Render, Mlx_loop_hook, Mlx_loop, Mlx_terminate],
      Some s)"
    using main_success [of "[''fractol'', ''julia'', ''50'']" 1 "\<lparr>init_ok = True, new_image_ok = True, attach_ok = True\<rparr>"
        "[\<lparr>key_escape = False, key_up = True, key_down = False\<rparr>]"] by auto
  with main_success_run [OF r] \<open>parse_fractal_type ([''fractol'', ''julia'', ''50''] ! 1) = Some 1\<close>
    \<open>ft_atoi ([''fractol'', ''julia'', ''50''] ! 2) = 50\<close>
  show ?thesis by auto
qed

text \<open>C5. \<^verbatim>\<open>main\<close> succeeds exactly when there are two arguments, the name is
  recognised, the cap is positive and the three MLX42 set-up calls succeed; every
  other run fails with \<^verbatim>\<open>EXIT_FAILURE\<close>, and no run traps.\<close>

theorem main_exit_status:
  "fst (main argv env ks) =
     (if 3 \<le> length argv \<and> parse_fractal_type (argv ! 1) \<noteq> None \<and> 0 < ft_atoi (argv ! 2) \<and>
         init_ok env \<and> new_image_ok env \<and> attach_ok env
      then EXIT_SUCCESS else EXIT_FAILURE)"
proof (cases "3 \<le> length argv \<and> parse_fractal_type (argv ! 1) \<noteq> None \<and> 0 < ft_atoi (argv ! 2) \<and>
     init_ok env \<and> new_image_ok env \<and> attach_ok env")
  case True
  then obtain t where "parse_fractal_type (argv ! 1) = Some t" by blast
  with True show ?thesis using main_success [of argv t env ks] by auto
next
  case False
  then show ?thesis by (auto simp: main_def Let_def split: option.splits)
qed

text \<open>C10. The spec's end-to-end scenario: a run of \<^verbatim>\<open>fractol mandelbrot 50\<close>
  or \<^verbatim>\<open>fractol burning_ship 50\<close> (or any name that selects these fractals, any cap)
  shows the image centre \<open>(256, 256)\<close> in the sentinel grey when the loop ends, whatever
  keys were held: the centre maps to the origin at every zoom, and the origin never
  escapes.\<close>

theorem main_centre_pixel_sentinel:
  assumes "main argv env ks = (st, tr, Some s)"
    and "parse_fractal_type (argv ! 1) = Some 0 \<or> parse_fractal_type (argv ! 1) = Some 2"
  shows "pixels (image (glob s)) (256, 256) = 0x141414FF"
proof -
  have r: "reachable s" and tag: "g_fractal_type (glob s) = 0 \<or> g_fractal_type (glob s) = 2"
    using main_Some_reachable [OF assms(1)] assms(2) by auto
  obtain t m where "ctrl_inv t m s" using reachable_ctrl_inv [OF r] by blast
  then have pt: "paint (glob s) (image (glob s)) = image (glob s)"
    and dims: "img_width (image (glob s)) = 512" "img_height (image (glob s)) = 512"
    by (simp_all add: ctrl_inv_def rendered_def WIDTH_def HEIGHT_def)
  have "pixels (paint (glob s) (image (glob s))) (256, 256) = pixel_color (glob s) (4 / zoom (glob s)) 256 256"
    by (simp only: paint_pixels(1) dims) simp
  then have "pixels (image (glob s)) (256, 256) = pixel_color (glob s) (4 / zoom (glob s)) 256 256"
    by (simp only: pt)
  with pixel_color_centre [OF tag] show ?thesis by simp
qed

theorem main_centre_pixel_sentinel_witness:
  "\<exists>s. main [''fractol'', ''mandelbrot'', ''50''] \<lparr>init_ok = True, new_image_ok = True, attach_ok = True\<rparr>
     [\<lparr>key_escape = False, key_up = True, key_down = False\<rparr>, \<lparr>key_escape = True, key_up = False, key_down = False\<rparr>] =
     (EXIT_SUCCESS, [Mlx_init, Mlx_new_image, Mlx_image_to_window, Render, Mlx_loop_hook, Mlx_loop, Mlx_terminate],
      Some s) \<and> pixels (image (glob s)) (256, 256) = 0x141414FF"
proof -
  have p: "parse_fractal_type ([''fractol'', ''mandelbrot'', ''50''] ! 1) = Some 0" by (simp add: parse_eval)
  moreover have "ft_atoi ([''fractol'', ''mandelbrot'', ''50''] ! 2) = 50" by (simp add: atoi_eval)
  ultimately obtain s where r: "main [''fractol'', ''mandelbrot'', ''50'']
     \<lparr>init_ok = True, new_image_ok = True, attach_ok = True\<rparr>
     [\<lparr>key_escape = False, key_up = True, key_down = False\<rparr>, \<lparr>key_escape = True, key_up = False, key_down = False\<rparr>] =
     (EXIT_SUCCESS, [Mlx_init, Mlx_new_image, Mlx_image_to_window, Render, Mlx_loop_hook, Mlx_loop, Mlx_terminate],
      Some s)"
    using main_success [of "[''fractol'', ''mandelbrot'', ''50'']" 0
        "\<lparr>init_ok = True, new_image_ok = True, attach_ok = True\<rparr>"
        "[\<lparr>key_escape = False, key_up = True, key_down = False\<rparr>, \<lparr>key_escape = True, key_up = False, key_down = False\<rparr>]"]
    by auto
  with main_centre_pixel_sentinel [OF r] p show ?thesis by auto
qed

end
